theory Spec2Isabelle
  imports Main "HOL-Library.Sublist" "HOL-Library.AList"
begin

section \<open>The Nabha Vidya service worker (v2.0)\<close>

text \<open>
  A shallow embedding of the service worker with the cache partitions
  \<open>nabha-static-v2.0\<close> and \<open>nabha-dynamic-v2.0\<close>: request routing, the three caching
  strategies, the offline fallback, installation (preloading), activation (cleanup of old
  partitions) and the background synchronisation of feedback submissions.

  Conventions of the model.
  \<^item> The browser's cache storage is an association list from partition names to partitions,
    in creation order; a partition is an association list from request URLs to stored
    responses. Both are part of an explicit worker state that every operation takes and
    returns.
  \<^item> The network is a parameter: a function from a URL to either an error (the fetch
    promise rejects) or a response (it fulfils, with any status).
  \<^item> \<open>cache.put\<close> rejects with a \<open>TypeError\<close> what the Cache interface refuses to
    store: a response of status 206, a response whose \<open>Vary\<close> header lists \<open>*\<close>, and a
    request that is not a GET over http or https.
  \<^item> In the first model the other operations of the cache storage (open, match, keys,
    delete) succeed. A second model of the fetch handler, further down, lets every
    operation of the cache storage fail.
  \<^item> An \<open>async\<close> function is modelled by the settlement of its promise: a response, the
    value \<open>undefined\<close>, or a rejection. Each handler is modelled as running alone.
  \<^item> Every network fetch, cache write, partition deletion and call of
    \<open>removePendingSubmission\<close> is appended to a trace kept in the state, so that the effects
    of a call can be read off afterwards.
\<close>

subsection \<open>String operations of the host language\<close>

definition startsWith :: "string \<Rightarrow> string \<Rightarrow> bool" where
  "startsWith s p = (take (length p) s = p)"

definition endsWith :: "string \<Rightarrow> string \<Rightarrow> bool" where
  "endsWith s p = (length p \<le> length s \<and> drop (length s - length p) s = p)"

fun str_includes :: "string \<Rightarrow> string \<Rightarrow> bool" where
  "str_includes [] p = (p = [])"
| "str_includes (c # cs) p = (startsWith (c # cs) p \<or> str_includes cs p)"

subsection \<open>Requests, responses, errors\<close>

record response =
  status :: nat
  statusText :: string
  headers :: "(string \<times> string) list"
  body :: string

text \<open>\<open>response.ok\<close>: the status is in the range 200 to 299.\<close>

definition ok :: "response \<Rightarrow> bool" where
  "ok r = (200 \<le> status r \<and> status r \<le> 299)"

text \<open>
  A request carries its method, its URL (the identity under which a partition stores a
  response), the protocol and path name that \<open>new URL(request.url)\<close> yields, and its mode.
\<close>

record request =
  http_method :: string
  url :: string
  protocol :: string
  pathname :: string
  mode :: string

datatype error =
    NetworkError
  | FailedToFetch string nat
  | TypeError
  | StorageError

datatype result =
    Resolved response
  | ResolvedUndefined
  | Rejected error

type_synonym network = "string \<Rightarrow> error + response"

record submission =
  sub_id :: nat
  payload :: string

subsection \<open>Worker state\<close>

type_synonym cache = "(string \<times> response) list"

datatype event =
    NetFetch string
  | NetPost string submission
  | CachePut string string response
  | CacheDelete string
  | RemovePending nat

record sw_state =
  caches :: "(string \<times> cache) list"
  pending :: "submission list"
  trace :: "event list"

definition CACHE_NAME :: string where
  "CACHE_NAME = ''nabha-vidya-v2.0''"

definition STATIC_CACHE :: string where
  "STATIC_CACHE = ''nabha-static-v2.0''"

definition DYNAMIC_CACHE :: string where
  "DYNAMIC_CACHE = ''nabha-dynamic-v2.0''"

definition STATIC_ASSETS :: "string list" where
  "STATIC_ASSETS =
     [''/'',
      ''/index.html'',
      ''/student-dashboard.html'',
      ''/teacher-dashboard.html'',
      ''/styles.css'',
      ''/script.js'',
      ''/manifest.json'',
      ''/logo-removebg-preview.png'',
      ''/assets/icons/icon-192.png'',
      ''/assets/icons/icon-512.png'']"

text \<open>\<open>caches.open(name)\<close>: creates the partition when it is absent.\<close>

definition caches_open :: "string \<Rightarrow> sw_state \<Rightarrow> sw_state" where
  "caches_open name s =
     (if name \<in> set (map fst (caches s)) then s
      else s\<lparr>caches := caches s @ [(name, [])]\<rparr>)"

text \<open>\<open>cache.match(key)\<close> on the partition of that name.\<close>

definition cache_match :: "string \<Rightarrow> string \<Rightarrow> sw_state \<Rightarrow> response option" where
  "cache_match name key s =
     (case map_of (caches s) name of
        None \<Rightarrow> None
      | Some c \<Rightarrow> map_of c key)"

text \<open>Storing a response under a key of a partition overwrites an earlier entry of the key.\<close>

definition store_entry :: "string \<Rightarrow> string \<Rightarrow> response \<Rightarrow> sw_state \<Rightarrow> sw_state" where
  "store_entry name key r s =
     s\<lparr>caches := AList.map_entry name (AList.update key r) (caches s),
       trace := trace s @ [CachePut name key r]\<rparr>"

text \<open>
  What \<open>cache.put\<close> refuses. The field values of a header are its comma-separated items
  without the surrounding blanks; header names compare without regard to case.
\<close>

fun split_on :: "char \<Rightarrow> string \<Rightarrow> string list" where
  "split_on c [] = [[]]"
| "split_on c (x # xs) =
     (if x = c then [] # split_on c xs
      else (case split_on c xs of
              w # ws \<Rightarrow> (x # w) # ws
            | [] \<Rightarrow> [[x]]))"

definition is_blank :: "char \<Rightarrow> bool" where
  "is_blank c = (c = CHR '' '' \<or> c = CHR 0x09)"

definition strip :: "string \<Rightarrow> string" where
  "strip w = rev (dropWhile is_blank (rev (dropWhile is_blank w)))"

definition field_values :: "string \<Rightarrow> string list" where
  "field_values v = map strip (split_on (CHR '','') v)"

definition ascii_lower :: "char \<Rightarrow> char" where
  "ascii_lower c =
     (case map_of (zip ''ABCDEFGHIJKLMNOPQRSTUVWXYZ'' ''abcdefghijklmnopqrstuvwxyz'') c of
        Some l \<Rightarrow> l
      | None \<Rightarrow> c)"

definition vary_star :: "(string \<times> string) list \<Rightarrow> bool" where
  "vary_star hs =
     list_ex (\<lambda>h. map ascii_lower (fst h) = ''vary'' \<and> ''*'' \<in> set (field_values (snd h))) hs"

definition response_storable :: "response \<Rightarrow> bool" where
  "response_storable r = (status r \<noteq> 206 \<and> \<not> vary_star (headers r))"

definition request_storable :: "request \<Rightarrow> bool" where
  "request_storable req =
     (http_method req = ''GET'' \<and> (protocol req = ''http:'' \<or> protocol req = ''https:''))"

text \<open>
  \<open>cache.put(url, response.clone())\<close> with a URL of the worker's own origin: the request
  made of the URL is a GET over the worker's scheme, so only the response can be refused.
\<close>

definition cache_put_url :: "string \<Rightarrow> string \<Rightarrow> response \<Rightarrow> sw_state \<Rightarrow> error + sw_state" where
  "cache_put_url name key r s =
     (if response_storable r then Inr (store_entry name key r s) else Inl TypeError)"

text \<open>\<open>cache.put(request, response.clone())\<close>.\<close>

definition put_accepts :: "request \<Rightarrow> response \<Rightarrow> bool" where
  "put_accepts req r = (request_storable req \<and> response_storable r)"

definition cache_put :: "string \<Rightarrow> request \<Rightarrow> response \<Rightarrow> sw_state \<Rightarrow> error + sw_state" where
  "cache_put name req r s =
     (if request_storable req then cache_put_url name (url req) r s else Inl TypeError)"

text \<open>\<open>caches.match(key)\<close>: the first partition, in creation order, that holds the key.\<close>

fun match_any :: "(string \<times> cache) list \<Rightarrow> string \<Rightarrow> response option" where
  "match_any [] key = None"
| "match_any ((name, c) # rest) key =
     (case map_of c key of
        Some r \<Rightarrow> Some r
      | None \<Rightarrow> match_any rest key)"

definition caches_match :: "string \<Rightarrow> sw_state \<Rightarrow> response option" where
  "caches_match key s = match_any (caches s) key"

text \<open>\<open>caches.delete(name)\<close>.\<close>

definition caches_delete :: "string \<Rightarrow> sw_state \<Rightarrow> sw_state" where
  "caches_delete name s =
     s\<lparr>caches := AList.delete name (caches s),
       trace := trace s @ [CacheDelete name]\<rparr>"

text \<open>\<open>fetch(url)\<close>: one call of the network.\<close>

definition fetch :: "network \<Rightarrow> string \<Rightarrow> sw_state \<Rightarrow> (error + response) \<times> sw_state" where
  "fetch net u s = (net u, s\<lparr>trace := trace s @ [NetFetch u]\<rparr>)"

subsection \<open>Installation: preloading the static assets\<close>

text \<open>
  The body of \<open>safeCacheAdd\<close> inside its \<open>try\<close>: a rejected fetch, a response that is
  not ok and a rejected \<open>cache.put\<close> all raise.
\<close>

definition safeCacheAdd_try ::
  "network \<Rightarrow> string \<Rightarrow> string \<Rightarrow> sw_state \<Rightarrow> (error + bool) \<times> sw_state" where
  "safeCacheAdd_try net cacheName u s =
     (case fetch net u s of
        (Inl err, s1) \<Rightarrow> (Inl err, s1)
      | (Inr response, s1) \<Rightarrow>
          if \<not> ok response then (Inl (FailedToFetch u (status response)), s1)
          else (case cache_put_url cacheName u response s1 of
                  Inl err \<Rightarrow> (Inl err, s1)
                | Inr s2 \<Rightarrow> (Inr True, s2)))"

text \<open>\<open>safeCacheAdd\<close>: the \<open>catch\<close> turns every error into the value \<open>false\<close>.\<close>

definition safeCacheAdd :: "network \<Rightarrow> string \<Rightarrow> string \<Rightarrow> sw_state \<Rightarrow> bool \<times> sw_state" where
  "safeCacheAdd net cacheName u s =
     (case safeCacheAdd_try net cacheName u s of
        (Inr b, s1) \<Rightarrow> (b, s1)
      | (Inl err, s1) \<Rightarrow> (False, s1))"

text \<open>An entry of the array that \<open>Promise.allSettled\<close> resolves to.\<close>

datatype 'a settled =
    Fulfilled 'a
  | RejectedWith error

fun is_fulfilled :: "'a settled \<Rightarrow> bool" where
  "is_fulfilled (Fulfilled v) = True"
| "is_fulfilled (RejectedWith e) = False"

text \<open>
  \<open>Promise.allSettled(assets.map(asset => safeCacheAdd(cache, asset)))\<close>, the calls taken
  in the order of the list. The promise of \<open>safeCacheAdd\<close> always fulfils, with the
  boolean it returns.
\<close>

fun allSettled_safeCacheAdd ::
  "network \<Rightarrow> string \<Rightarrow> string list \<Rightarrow> sw_state \<Rightarrow> bool settled list \<times> sw_state" where
  "allSettled_safeCacheAdd net cacheName [] s = ([], s)"
| "allSettled_safeCacheAdd net cacheName (asset # assets) s =
     (case safeCacheAdd net cacheName asset s of
        (b, s1) \<Rightarrow>
          (case allSettled_safeCacheAdd net cacheName assets s1 of
             (results, s2) \<Rightarrow> (Fulfilled b # results, s2)))"

text \<open>
  The install handler for a given manifest. Its value is what the handler logs:
  the number \<open>successful\<close> and the length of the manifest.
\<close>

definition install_with :: "string list \<Rightarrow> network \<Rightarrow> sw_state \<Rightarrow> (nat \<times> nat) \<times> sw_state" where
  "install_with assets net s =
     (let s1 = caches_open STATIC_CACHE s;
          s2 = caches_open DYNAMIC_CACHE s1
      in case allSettled_safeCacheAdd net STATIC_CACHE assets s2 of
           (results, s3) \<Rightarrow>
             (let successful = length (filter is_fulfilled results)
              in ((successful, length assets), s3)))"

definition install :: "network \<Rightarrow> sw_state \<Rightarrow> (nat \<times> nat) \<times> sw_state" where
  "install = install_with STATIC_ASSETS"

subsection \<open>Activation: deleting old partitions\<close>

definition is_old_cache :: "string \<Rightarrow> bool" where
  "is_old_cache cacheName =
     (cacheName \<noteq> STATIC_CACHE \<and> cacheName \<noteq> DYNAMIC_CACHE \<and> startsWith cacheName ''nabha-'')"

definition activate :: "sw_state \<Rightarrow> sw_state" where
  "activate s =
     (let cacheNames = map fst (caches s)
      in fold caches_delete (filter is_old_cache cacheNames) s)"

text \<open>
  The older worker of the repository (\<open>sw.js\<close>, with the single partition
  \<open>vidya-cache-v1\<close>) cleans up differently: it deletes every partition but its own.
\<close>

definition CACHE_NAME_v1 :: string where
  "CACHE_NAME_v1 = ''vidya-cache-v1''"

definition activate_v1 :: "sw_state \<Rightarrow> sw_state" where
  "activate_v1 s =
     (let keys = map fst (caches s)
      in fold caches_delete (filter (\<lambda>key. key \<noteq> CACHE_NAME_v1) keys) s)"

subsection \<open>Routing and the caching strategies\<close>

definition static_extensions :: "string list" where
  "static_extensions =
     [''css'', ''js'', ''png'', ''jpg'', ''jpeg'', ''gif'', ''ico'', ''svg'',
      ''woff'', ''woff2'', ''ttf'', ''eot'']"

text \<open>
  The regular expression of \<open>isStaticAsset\<close> is a dot, one of the alternatives, and the
  end of the input: the path ends in a dot followed by an alternative.
\<close>

definition isStaticAsset :: "string \<Rightarrow> bool" where
  "isStaticAsset p =
     (list_ex (\<lambda>e. endsWith p (CHR ''.'' # e)) static_extensions
      \<or> p = ''/''
      \<or> endsWith p ''.html'')"

definition isDynamicAsset :: "string \<Rightarrow> bool" where
  "isDynamicAsset p =
     (startsWith p ''/assets/videos/''
      \<or> str_includes p ''api''
      \<or> str_includes p ''user-content'')"

text \<open>
  \<open>cacheFirst\<close>. The \<open>cache.put\<close> is awaited: when it rejects, so does the function, and
  nothing is stored.
\<close>

definition cacheFirst :: "network \<Rightarrow> request \<Rightarrow> string \<Rightarrow> sw_state \<Rightarrow> result \<times> sw_state" where
  "cacheFirst net req cacheName s =
     (let s1 = caches_open cacheName s
      in case cache_match cacheName (url req) s1 of
           Some cachedResponse \<Rightarrow> (Resolved cachedResponse, s1)
         | None \<Rightarrow>
             (case fetch net (url req) s1 of
                (Inl err, s2) \<Rightarrow> (Rejected err, s2)
              | (Inr networkResponse, s2) \<Rightarrow>
                  if ok networkResponse
                  then (case cache_put cacheName req networkResponse s2 of
                          Inl err \<Rightarrow> (Rejected err, s2)
                        | Inr s3 \<Rightarrow> (Resolved networkResponse, s3))
                  else (Resolved networkResponse, s2)))"

text \<open>
  \<open>networkFirst\<close>. The inner \<open>case\<close> is the \<open>try\<close> block: the fetch and the awaited
  \<open>cache.put\<close>. Whatever it raises, a failed fetch or a rejected put, goes to the
  \<open>catch\<close>, which answers from the partition or raises the error again.
\<close>

definition networkFirst :: "network \<Rightarrow> request \<Rightarrow> string \<Rightarrow> sw_state \<Rightarrow> result \<times> sw_state" where
  "networkFirst net req cacheName s =
     (let s1 = caches_open cacheName s
      in case (case fetch net (url req) s1 of
                 (Inr networkResponse, s2) \<Rightarrow>
                   if ok networkResponse
                   then (case cache_put cacheName req networkResponse s2 of
                           Inl err \<Rightarrow> (Inl err, s2)
                         | Inr s3 \<Rightarrow> (Inr networkResponse, s3))
                   else (Inr networkResponse, s2)
               | (Inl err, s2) \<Rightarrow> (Inl err, s2)) of
           (Inr networkResponse, s4) \<Rightarrow> (Resolved networkResponse, s4)
         | (Inl err, s4) \<Rightarrow>
             (case cache_match cacheName (url req) s4 of
                Some cachedResponse \<Rightarrow> (Resolved cachedResponse, s4)
              | None \<Rightarrow> (Rejected err, s4)))"

text \<open>
  \<open>staleWhileRevalidate\<close>. The fetch is started before the function returns and is not
  awaited when a cached response exists. \<open>fetchPromise\<close> is the settlement of the chain
  \<open>fetch(request).then(...).catch(...)\<close>: the \<open>catch\<close> handler logs and returns nothing,
  so a rejected fetch makes the chain fulfil with \<open>undefined\<close>. The \<open>cache.put\<close> in the
  chain is not awaited: when it rejects, nothing is stored and the chain still fulfils with
  the response. The state of the result is the state once the detached fetch has settled.
\<close>

definition staleWhileRevalidate ::
  "network \<Rightarrow> request \<Rightarrow> string \<Rightarrow> sw_state \<Rightarrow> result \<times> sw_state" where
  "staleWhileRevalidate net req cacheName s =
     (let s1 = caches_open cacheName s;
          cachedResponse = cache_match cacheName (url req) s1
      in case (case fetch net (url req) s1 of
                 (Inr response, s2) \<Rightarrow>
                   (Resolved response,
                    if ok response
                    then (case cache_put cacheName req response s2 of
                            Inl err \<Rightarrow> s2
                          | Inr s3 \<Rightarrow> s3)
                    else s2)
               | (Inl err, s2) \<Rightarrow> (ResolvedUndefined, s2)) of
           (fetchPromise, s3) \<Rightarrow>
             (case cachedResponse of
                Some c \<Rightarrow> (Resolved c, s3)
              | None \<Rightarrow> (fetchPromise, s3)))"

definition offline_response :: response where
  \<open>offline_response =
     \<lparr>status = 503,
      statusText = ''Service Unavailable'',
      headers = [(''Content-Type'', ''application/json'')],
      body = ''{"error":"Offline","message":"This content is not available offline"}''\<rparr>\<close>

definition handleOfflineFallback :: "request \<Rightarrow> sw_state \<Rightarrow> result \<times> sw_state" where
  "handleOfflineFallback req s =
     (case (if mode req = ''navigate''
            then (let s1 = caches_open STATIC_CACHE s
                  in (cache_match STATIC_CACHE ''/index.html'' s1, s1))
            else (None, s)) of
        (Some fallback, s1) \<Rightarrow> (Resolved fallback, s1)
      | (None, s1) \<Rightarrow>
          (case caches_match (url req) s1 of
             Some cachedResponse \<Rightarrow> (Resolved cachedResponse, s1)
           | None \<Rightarrow> (Resolved offline_response, s1)))"

text \<open>The \<open>try\<close> block of \<open>handleFetch\<close>.\<close>

definition handleFetch_try :: "network \<Rightarrow> request \<Rightarrow> sw_state \<Rightarrow> result \<times> sw_state" where
  "handleFetch_try net req s =
     (if isStaticAsset (pathname req) then cacheFirst net req STATIC_CACHE s
      else if isDynamicAsset (pathname req) then networkFirst net req DYNAMIC_CACHE s
      else if startsWith (pathname req) ''/api/'' then staleWhileRevalidate net req DYNAMIC_CACHE s
      else networkFirst net req DYNAMIC_CACHE s)"

definition handleFetch :: "network \<Rightarrow> request \<Rightarrow> sw_state \<Rightarrow> result \<times> sw_state" where
  "handleFetch net req s =
     (case handleFetch_try net req s of
        (Rejected err, s1) \<Rightarrow> handleOfflineFallback req s1
      | (r, s1) \<Rightarrow> (r, s1))"

text \<open>
  The fetch listener: \<open>None\<close> when the worker does not intervene, otherwise the settlement
  of the promise handed to \<open>respondWith\<close>.
\<close>

definition on_fetch :: "network \<Rightarrow> request \<Rightarrow> sw_state \<Rightarrow> (result \<times> sw_state) option" where
  "on_fetch net req s =
     (if http_method req \<noteq> ''GET'' then None
      else if \<not> startsWith (protocol req) ''http'' then None
      else Some (handleFetch net req s))"

subsection \<open>Background synchronisation of feedback submissions\<close>

text \<open>
  The field \<open>pending\<close> of the state is the queue of deferred submissions kept for the
  worker. The worker reaches it through two functions that the source gives as placeholders:
  \<open>getPendingSubmissions\<close> returns the empty array, and \<open>removePendingSubmission\<close> returns
  \<open>true\<close> and removes nothing. The call of the latter is recorded in the trace.
\<close>

definition getPendingSubmissions :: "sw_state \<Rightarrow> submission list" where
  "getPendingSubmissions s = []"

definition removePendingSubmission :: "nat \<Rightarrow> sw_state \<Rightarrow> sw_state" where
  "removePendingSubmission i s = s\<lparr>trace := trace s @ [RemovePending i]\<rparr>"

text \<open>
  \<open>submitFeedback\<close>: a POST of the submission to \<open>/api/feedback\<close>. The promise rejects
  only when the fetch does; a response of any status fulfils it.
\<close>

type_synonym poster = "string \<Rightarrow> submission \<Rightarrow> error + response"

definition submitFeedback :: "poster \<Rightarrow> submission \<Rightarrow> sw_state \<Rightarrow> (error + response) \<times> sw_state" where
  "submitFeedback post x s =
     (post ''/api/feedback'' x, s\<lparr>trace := trace s @ [NetPost ''/api/feedback'' x]\<rparr>)"

text \<open>The \<open>for\<close> loop of \<open>syncFeedbackSubmissions\<close> over the array read at the start.\<close>

fun sync_loop :: "poster \<Rightarrow> submission list \<Rightarrow> sw_state \<Rightarrow> sw_state" where
  "sync_loop post [] s = s"
| "sync_loop post (x # rest) s =
     (case submitFeedback post x s of
        (Inr r, s1) \<Rightarrow> sync_loop post rest (removePendingSubmission (sub_id x) s1)
      | (Inl err, s1) \<Rightarrow> sync_loop post rest s1)"

definition syncFeedbackSubmissions :: "poster \<Rightarrow> sw_state \<Rightarrow> sw_state" where
  "syncFeedbackSubmissions post s = sync_loop post (getPendingSubmissions s) s"

definition on_sync :: "string \<Rightarrow> poster \<Rightarrow> sw_state \<Rightarrow> sw_state" where
  "on_sync tag post s =
     (if tag = ''feedback-submission'' then syncFeedbackSubmissions post s else s)"

subsection \<open>The fetch handler over a cache storage that can fail\<close>

text \<open>
  Every operation of the cache storage returns a promise, and the promise rejects when the
  storage behind it is unavailable or full. The definitions of this subsection are the
  functions of the fetch handler once more, with that possibility: a further parameter says,
  for each operation, whether it succeeds or with which error it rejects. Where nothing
  fails they are the functions above.
\<close>

datatype storage_op =
    OpOpen string
  | OpMatch string string
  | OpMatchAll string
  | OpPut string string

type_synonym disk = "storage_op \<Rightarrow> error option"

definition no_faults :: disk where
  "no_faults op = None"

definition caches_open_io :: "disk \<Rightarrow> string \<Rightarrow> sw_state \<Rightarrow> error + sw_state" where
  "caches_open_io d name s =
     (case d (OpOpen name) of
        Some e \<Rightarrow> Inl e
      | None \<Rightarrow> Inr (caches_open name s))"

definition cache_match_io ::
  "disk \<Rightarrow> string \<Rightarrow> string \<Rightarrow> sw_state \<Rightarrow> error + response option" where
  "cache_match_io d name key s =
     (case d (OpMatch name key) of
        Some e \<Rightarrow> Inl e
      | None \<Rightarrow> Inr (cache_match name key s))"

definition caches_match_io :: "disk \<Rightarrow> string \<Rightarrow> sw_state \<Rightarrow> error + response option" where
  "caches_match_io d key s =
     (case d (OpMatchAll key) of
        Some e \<Rightarrow> Inl e
      | None \<Rightarrow> Inr (caches_match key s))"

text \<open>The refusals of \<open>cache.put\<close> come first, then the write itself can fail.\<close>

definition cache_put_io ::
  "disk \<Rightarrow> string \<Rightarrow> request \<Rightarrow> response \<Rightarrow> sw_state \<Rightarrow> error + sw_state" where
  "cache_put_io d name req r s =
     (case cache_put name req r s of
        Inl e \<Rightarrow> Inl e
      | Inr s1 \<Rightarrow>
          (case d (OpPut name (url req)) of
             Some e \<Rightarrow> Inl e
           | None \<Rightarrow> Inr s1))"

definition cacheFirst_io ::
  "disk \<Rightarrow> network \<Rightarrow> request \<Rightarrow> string \<Rightarrow> sw_state \<Rightarrow> result \<times> sw_state" where
  "cacheFirst_io d net req cacheName s =
     (case caches_open_io d cacheName s of
        Inl e \<Rightarrow> (Rejected e, s)
      | Inr s1 \<Rightarrow>
          (case cache_match_io d cacheName (url req) s1 of
             Inl e \<Rightarrow> (Rejected e, s1)
           | Inr (Some cachedResponse) \<Rightarrow> (Resolved cachedResponse, s1)
           | Inr None \<Rightarrow>
               (case fetch net (url req) s1 of
                  (Inl err, s2) \<Rightarrow> (Rejected err, s2)
                | (Inr networkResponse, s2) \<Rightarrow>
                    if ok networkResponse
                    then (case cache_put_io d cacheName req networkResponse s2 of
                            Inl err \<Rightarrow> (Rejected err, s2)
                          | Inr s3 \<Rightarrow> (Resolved networkResponse, s3))
                    else (Resolved networkResponse, s2))))"

text \<open>In \<open>networkFirst\<close> the partition is opened before the \<open>try\<close>.\<close>

definition networkFirst_io ::
  "disk \<Rightarrow> network \<Rightarrow> request \<Rightarrow> string \<Rightarrow> sw_state \<Rightarrow> result \<times> sw_state" where
  "networkFirst_io d net req cacheName s =
     (case caches_open_io d cacheName s of
        Inl e \<Rightarrow> (Rejected e, s)
      | Inr s1 \<Rightarrow>
          (case (case fetch net (url req) s1 of
                   (Inr networkResponse, s2) \<Rightarrow>
                     if ok networkResponse
                     then (case cache_put_io d cacheName req networkResponse s2 of
                             Inl err \<Rightarrow> (Inl err, s2)
                           | Inr s3 \<Rightarrow> (Inr networkResponse, s3))
                     else (Inr networkResponse, s2)
                 | (Inl err, s2) \<Rightarrow> (Inl err, s2)) of
             (Inr networkResponse, s4) \<Rightarrow> (Resolved networkResponse, s4)
           | (Inl err, s4) \<Rightarrow>
               (case cache_match_io d cacheName (url req) s4 of
                  Inl e \<Rightarrow> (Rejected e, s4)
                | Inr (Some cachedResponse) \<Rightarrow> (Resolved cachedResponse, s4)
                | Inr None \<Rightarrow> (Rejected err, s4))))"

text \<open>In \<open>staleWhileRevalidate\<close> the fetch is started after the lookup has been awaited.\<close>

definition staleWhileRevalidate_io ::
  "disk \<Rightarrow> network \<Rightarrow> request \<Rightarrow> string \<Rightarrow> sw_state \<Rightarrow> result \<times> sw_state" where
  "staleWhileRevalidate_io d net req cacheName s =
     (case caches_open_io d cacheName s of
        Inl e \<Rightarrow> (Rejected e, s)
      | Inr s1 \<Rightarrow>
          (case cache_match_io d cacheName (url req) s1 of
             Inl e \<Rightarrow> (Rejected e, s1)
           | Inr cachedResponse \<Rightarrow>
               (case (case fetch net (url req) s1 of
                        (Inr response, s2) \<Rightarrow>
                          (Resolved response,
                           if ok response
                           then (case cache_put_io d cacheName req response s2 of
                                   Inl err \<Rightarrow> s2
                                 | Inr s3 \<Rightarrow> s3)
                           else s2)
                      | (Inl err, s2) \<Rightarrow> (ResolvedUndefined, s2)) of
                  (fetchPromise, s3) \<Rightarrow>
                    (case cachedResponse of
                       Some c \<Rightarrow> (Resolved c, s3)
                     | None \<Rightarrow> (fetchPromise, s3)))))"

text \<open>
  \<open>handleOfflineFallback\<close> has no \<open>try\<close>: an operation of the cache storage that rejects
  in it rejects the promise of the function.
\<close>

definition handleOfflineFallback_io :: "disk \<Rightarrow> request \<Rightarrow> sw_state \<Rightarrow> result \<times> sw_state" where
  "handleOfflineFallback_io d req s =
     (case (if mode req = ''navigate''
            then (case caches_open_io d STATIC_CACHE s of
                    Inl e \<Rightarrow> (Inl e, s)
                  | Inr s1 \<Rightarrow>
                      (case cache_match_io d STATIC_CACHE ''/index.html'' s1 of
                         Inl e \<Rightarrow> (Inl e, s1)
                       | Inr fallback \<Rightarrow> (Inr fallback, s1)))
            else (Inr None, s)) of
        (Inl e, s1) \<Rightarrow> (Rejected e, s1)
      | (Inr (Some fallback), s1) \<Rightarrow> (Resolved fallback, s1)
      | (Inr None, s1) \<Rightarrow>
          (case caches_match_io d (url req) s1 of
             Inl e \<Rightarrow> (Rejected e, s1)
           | Inr (Some cachedResponse) \<Rightarrow> (Resolved cachedResponse, s1)
           | Inr None \<Rightarrow> (Resolved offline_response, s1)))"

definition handleFetch_try_io ::
  "disk \<Rightarrow> network \<Rightarrow> request \<Rightarrow> sw_state \<Rightarrow> result \<times> sw_state" where
  "handleFetch_try_io d net req s =
     (if isStaticAsset (pathname req) then cacheFirst_io d net req STATIC_CACHE s
      else if isDynamicAsset (pathname req) then networkFirst_io d net req DYNAMIC_CACHE s
      else if startsWith (pathname req) ''/api/''
        then staleWhileRevalidate_io d net req DYNAMIC_CACHE s
      else networkFirst_io d net req DYNAMIC_CACHE s)"

definition handleFetch_io :: "disk \<Rightarrow> network \<Rightarrow> request \<Rightarrow> sw_state \<Rightarrow> result \<times> sw_state" where
  "handleFetch_io d net req s =
     (case handleFetch_try_io d net req s of
        (Rejected err, s1) \<Rightarrow> handleOfflineFallback_io d req s1
      | (r, s1) \<Rightarrow> (r, s1))"

definition on_fetch_io ::
  "disk \<Rightarrow> network \<Rightarrow> request \<Rightarrow> sw_state \<Rightarrow> (result \<times> sw_state) option" where
  "on_fetch_io d net req s =
     (if http_method req \<noteq> ''GET'' then None
      else if \<not> startsWith (protocol req) ''http'' then None
      else Some (handleFetch_io d net req s))"

subsection \<open>The classification as the specification words it\<close>






subsection \<open>Reading the trace and the partitions\<close>

text \<open>The URLs fetched from the network, in order.\<close>

fun fetched_urls :: "event list \<Rightarrow> string list" where
  "fetched_urls [] = []"
| "fetched_urls (NetFetch u # evs) = u # fetched_urls evs"
| "fetched_urls (e # evs) = fetched_urls evs"

text \<open>A trace event is harmless when it is not a cache write, or writes an ok response.\<close>

fun put_ok :: "event \<Rightarrow> bool" where
  "put_ok (CachePut name key r) = ok r"
| "put_ok e = True"

text \<open>The later state extends the trace of the earlier one by harmless events only.\<close>

definition writes_ok :: "sw_state \<Rightarrow> sw_state \<Rightarrow> bool" where
  "writes_ok s s' =
     (take (length (trace s)) (trace s') = trace s
      \<and> list_all put_ok (drop (length (trace s)) (trace s')))"

text \<open>Every stored response of every partition is ok.\<close>

definition all_cached_ok :: "sw_state \<Rightarrow> bool" where
  "all_cached_ok s = list_all (\<lambda>p. list_all (\<lambda>kr. ok (snd kr)) (snd p)) (caches s)"

subsection \<open>Sample inputs\<close>

text \<open>
  Concrete states, networks and requests on which the theorems below are instantiated.
  URLs are written relative to the worker's origin, as the entries of \<open>STATIC_ASSETS\<close> are.
\<close>

definition empty_state :: sw_state where
  "empty_state = \<lparr>caches = [], pending = [], trace = []\<rparr>"

definition page :: "string \<Rightarrow> response" where
  "page b = \<lparr>status = 200, statusText = ''OK'', headers = [], body = b\<rparr>"

definition not_found :: response where
  "not_found = \<lparr>status = 404, statusText = ''Not Found'', headers = [], body = []\<rparr>"

definition net_up :: network where
  "net_up u = Inr (page u)"

definition net_down :: network where
  "net_down u = Inl NetworkError"

definition net_without_manifest :: network where
  "net_without_manifest u = (if u = ''/manifest.json'' then Inl NetworkError else Inr (page u))"

definition net_a_only :: network where
  "net_a_only u = (if u = ''/a.css'' then Inr (page u) else Inl NetworkError)"

definition get_request :: "string \<Rightarrow> string \<Rightarrow> request" where
  "get_request p m =
     \<lparr>http_method = ''GET'', url = p, protocol = ''https:'', pathname = p, mode = m\<rparr>"

definition stocked_state :: sw_state where
  "stocked_state =
     \<lparr>caches =
        [(''nabha-static-v1.0'', [(''/old.css'', page ''old'')]),
         (''nabha-static-v2.0'', [(''/index.html'', page ''index''), (''/styles.css'', page ''css'')]),
         (''nabha-dynamic-v2.0'', [(''/api/lessons'', page ''lessons'')]),
         (''other-app-v1'', [(''/x'', page ''x'')])],
      pending = [\<lparr>sub_id = 1, payload = ''one''\<rparr>,
                 \<lparr>sub_id = 2, payload = ''two''\<rparr>,
                 \<lparr>sub_id = 3, payload = ''three''\<rparr>],
      trace = []\<rparr>"

definition post_all_but_two :: poster where
  "post_all_but_two u x = (if sub_id x = 2 then Inl NetworkError else Inr (page ''accepted''))"





definition disk_down :: disk where
  "disk_down op = Some StorageError"

definition disk_without_dynamic :: disk where
  "disk_without_dynamic op = (if op = OpOpen ''nabha-dynamic-v2.0'' then Some StorageError else None)"

definition three_submissions :: "submission list" where
  "three_submissions =
     [\<lparr>sub_id = 1, payload = ''one''\<rparr>,
      \<lparr>sub_id = 2, payload = ''two''\<rparr>,
      \<lparr>sub_id = 3, payload = ''three''\<rparr>]"

section \<open>Properties\<close>

subsection \<open>String operations and the classification\<close>

lemma startsWith_prefix: "startsWith s p \<longleftrightarrow> prefix p s"
  unfolding startsWith_def prefix_def
  by (metis append_eq_conv_conj append_take_drop_id)


lemma str_includes_sublist: "str_includes s p \<longleftrightarrow> sublist p s"
  by (induction s) (auto simp: startsWith_prefix sublist_Cons_right)





lemma api_prefix_is_dynamic: "startsWith p ''/api/'' \<Longrightarrow> isDynamicAsset p"
proof -
  assume "startsWith p ''/api/''"
  then obtain t where "p = ''/api/'' @ t" by (auto simp: startsWith_prefix prefix_def)
  then have "p = ''/'' @ ''api'' @ (''/'' @ t)" by simp
  then have "sublist ''api'' p" unfolding sublist_def by blast
  then show ?thesis by (simp add: isDynamicAsset_def str_includes_sublist)
qed

subsection \<open>Partitions\<close>

lemma trace_caches_open [simp]: "trace (caches_open n s) = trace s"
  by (simp add: caches_open_def)

lemma pending_caches_open [simp]: "pending (caches_open n s) = pending s"
  by (simp add: caches_open_def)

lemma caches_open_present [simp]: "n \<in> fst ` set (caches (caches_open n s))"
  by (auto simp: caches_open_def)

lemma caches_open_id: "n \<in> fst ` set (caches s) \<Longrightarrow> caches_open n s = s"
  by (simp add: caches_open_def)

lemma cache_match_caches_open [simp]:
  "cache_match n k (caches_open m s) = cache_match n k s"
proof (cases "m \<in> fst ` set (caches s)")
  case True
  then show ?thesis by (simp add: caches_open_id)
next
  case False
  then have "map_of (caches s) m = None" by (simp add: map_of_eq_None_iff)
  then show ?thesis
    using False
    by (auto simp: caches_open_def cache_match_def map_add_def split: option.splits)
qed

lemma match_any_snoc_empty [simp]: "match_any (cs @ [(m, [])]) k = match_any cs k"
  by (induction cs k rule: match_any.induct) (auto split: option.splits)

lemma caches_match_caches_open [simp]:
  "caches_match k (caches_open m s) = caches_match k s"
  by (simp add: caches_open_def caches_match_def)


lemma cache_match_trace_upd [simp]:
  "cache_match n k (s\<lparr>trace := t\<rparr>) = cache_match n k s"
  by (simp add: cache_match_def)

lemma caches_trace_upd_names [simp]:
  "caches (s\<lparr>trace := t\<rparr>) = caches s"
  by simp

lemma trace_store_entry [simp]: "trace (store_entry n k r s) = trace s @ [CachePut n k r]"
  by (simp add: store_entry_def)

lemma names_store_entry [simp]:
  "fst ` set (caches (store_entry n k r s)) = fst ` set (caches s)"
  by (simp add: store_entry_def AList.dom_map_entry)

lemma cache_match_store_entry:
  "n \<in> fst ` set (caches s) \<Longrightarrow>
   cache_match n' k' (store_entry n k r s) =
     (if n' = n \<and> k' = k then Some r else cache_match n' k' s)"
proof -
  assume "n \<in> fst ` set (caches s)"
  then obtain c where "map_of (caches s) n = Some c"
    by (metis map_of_eq_None_iff not_None_eq)
  then show ?thesis
    by (auto simp: cache_match_def store_entry_def AList.map_of_map_entry AList.update_conv'
        split: option.splits)
qed

lemma cache_put_cases:
  "cache_put n req r s =
     (if put_accepts req r then Inr (store_entry n (url req) r s) else Inl TypeError)"
  by (simp add: cache_put_def cache_put_url_def put_accepts_def)

lemma fetched_urls_append [simp]:
  "fetched_urls (xs @ ys) = fetched_urls xs @ fetched_urls ys"
  by (induction xs rule: fetched_urls.induct) simp_all

subsection \<open>Cache first\<close>





subsection \<open>Network first\<close>






subsection \<open>Stale while revalidate\<close>

lemma staleWhileRevalidate_hit:
  assumes "cache_match n (url req) s = Some c"
  shows "fst (staleWhileRevalidate net req n s) = Resolved c"
  using assms by (simp add: staleWhileRevalidate_def Let_def split: prod.splits)

lemma staleWhileRevalidate_cache:
  "cache_match n' k' (snd (staleWhileRevalidate net req n s)) =
     (case net (url req) of
        Inr r \<Rightarrow>
          if ok r \<and> put_accepts req r \<and> n' = n \<and> k' = url req then Some r
          else cache_match n' k' s
      | Inl e \<Rightarrow> cache_match n' k' s)"
  by (simp add: staleWhileRevalidate_def fetch_def Let_def cache_put_cases
      cache_match_store_entry split: sum.splits option.splits)

lemma staleWhileRevalidate_miss:
  assumes "cache_match n (url req) s = None"
  shows "fst (staleWhileRevalidate net req n s) =
           (case net (url req) of Inr r \<Rightarrow> Resolved r | Inl e \<Rightarrow> ResolvedUndefined)"
  using assms by (simp add: staleWhileRevalidate_def fetch_def Let_def split: sum.splits)

subsection \<open>Harmless writes\<close>

lemma writes_ok_iff:
  "writes_ok s s' \<longleftrightarrow> (\<exists>evs. trace s' = trace s @ evs \<and> list_all put_ok evs)"
proof
  assume h: "writes_ok s s'"
  then have "trace s' = trace s @ drop (length (trace s)) (trace s')"
    by (metis writes_ok_def append_take_drop_id)
  with h show "\<exists>evs. trace s' = trace s @ evs \<and> list_all put_ok evs"
    unfolding writes_ok_def by blast
next
  assume "\<exists>evs. trace s' = trace s @ evs \<and> list_all put_ok evs"
  then show "writes_ok s s'" by (auto simp: writes_ok_def)
qed

lemma writes_ok_refl [simp]: "writes_ok s s"
  by (simp add: writes_ok_def)

lemma writes_ok_trans: "writes_ok s s' \<Longrightarrow> writes_ok s' s'' \<Longrightarrow> writes_ok s s''"
  by (auto simp: writes_ok_iff)

lemma writes_ok_caches_open [simp]: "writes_ok s (caches_open n s)"
  by (simp add: writes_ok_iff)

lemma writes_ok_cacheFirst: "writes_ok s (snd (cacheFirst net req n s))"
  by (simp add: writes_ok_iff cacheFirst_def fetch_def cache_put_cases Let_def split: option.splits sum.splits)

lemma writes_ok_networkFirst: "writes_ok s (snd (networkFirst net req n s))"
  by (simp add: writes_ok_iff networkFirst_def fetch_def cache_put_cases Let_def split: option.splits sum.splits)

lemma writes_ok_staleWhileRevalidate: "writes_ok s (snd (staleWhileRevalidate net req n s))"
  by (simp add: writes_ok_iff staleWhileRevalidate_def fetch_def cache_put_cases Let_def
      split: option.splits sum.splits)

lemma writes_ok_handleOfflineFallback: "writes_ok s (snd (handleOfflineFallback req s))"
  by (simp add: writes_ok_iff handleOfflineFallback_def Let_def split: option.splits)

lemma writes_ok_handleFetch_try: "writes_ok s (snd (handleFetch_try net req s))"
  by (simp add: handleFetch_try_def writes_ok_cacheFirst writes_ok_networkFirst
      writes_ok_staleWhileRevalidate)

lemma writes_ok_handleFetch: "writes_ok s (snd (handleFetch net req s))"
proof (cases "handleFetch_try net req s")
  case (Pair r s1)
  then have s1: "writes_ok s s1"
    using writes_ok_handleFetch_try [of s net req] by simp
  show ?thesis
  proof (cases r)
    case (Rejected e)
    then show ?thesis
      using Pair s1 writes_ok_handleOfflineFallback [of s1 req]
      by (auto simp: handleFetch_def intro: writes_ok_trans)
  qed (use Pair s1 in \<open>simp_all add: handleFetch_def\<close>)
qed

lemma writes_ok_safeCacheAdd: "writes_ok s (snd (safeCacheAdd net n u s))"
  by (simp add: writes_ok_iff safeCacheAdd_def safeCacheAdd_try_def fetch_def cache_put_url_def
      split: sum.splits)

lemma writes_ok_allSettled:
  "writes_ok s (snd (allSettled_safeCacheAdd net n assets s))"
proof (induction assets arbitrary: s)
  case Nil
  show ?case by simp
next
  case (Cons a assets)
  obtain b s1 where a: "safeCacheAdd net n a s = (b, s1)" by (cases "safeCacheAdd net n a s")
  then have "writes_ok s s1" using writes_ok_safeCacheAdd [of s net n a] by simp
  moreover have "writes_ok s1 (snd (allSettled_safeCacheAdd net n assets s1))"
    by (rule Cons.IH)
  ultimately show ?case
    using a by (auto simp: split: prod.splits intro: writes_ok_trans)
qed

lemma writes_ok_install_with: "writes_ok s (snd (install_with assets net s))"
proof -
  let ?s2 = "caches_open DYNAMIC_CACHE (caches_open STATIC_CACHE s)"
  have "writes_ok s ?s2" by (simp add: writes_ok_iff)
  moreover have "writes_ok ?s2 (snd (allSettled_safeCacheAdd net STATIC_CACHE assets ?s2))"
    by (rule writes_ok_allSettled)
  ultimately show ?thesis
    by (auto simp: install_with_def Let_def split: prod.splits intro: writes_ok_trans)
qed

subsection \<open>Stored snapshots\<close>

lemma list_all_update:
  "list_all P c \<Longrightarrow> P (k, r) \<Longrightarrow> list_all P (AList.update k r c)"
  by (induction c) auto

lemma list_all_map_entry:
  "list_all (\<lambda>p. Q (snd p)) cs \<Longrightarrow> (\<And>v. Q v \<Longrightarrow> Q (f v)) \<Longrightarrow>
   list_all (\<lambda>p. Q (snd p)) (AList.map_entry n f cs)"
  by (induction cs) auto

lemma all_cached_ok_caches_open [simp]: "all_cached_ok (caches_open n s) = all_cached_ok s"
  by (simp add: all_cached_ok_def caches_open_def)

lemma all_cached_ok_trace_upd [simp]: "all_cached_ok (s\<lparr>trace := t\<rparr>) = all_cached_ok s"
  by (simp add: all_cached_ok_def)

lemma all_cached_ok_store_entry:
  "all_cached_ok s \<Longrightarrow> ok r \<Longrightarrow> all_cached_ok (store_entry n k r s)"
  unfolding all_cached_ok_def store_entry_def
  by (simp add: list_all_map_entry list_all_update)

lemma all_cached_ok_cacheFirst:
  "all_cached_ok s \<Longrightarrow> all_cached_ok (snd (cacheFirst net req n s))"
  by (simp add: cacheFirst_def fetch_def cache_put_cases Let_def all_cached_ok_store_entry
      split: option.splits sum.splits)

lemma all_cached_ok_networkFirst:
  "all_cached_ok s \<Longrightarrow> all_cached_ok (snd (networkFirst net req n s))"
  by (simp add: networkFirst_def fetch_def cache_put_cases Let_def all_cached_ok_store_entry
      split: option.splits sum.splits)

lemma all_cached_ok_staleWhileRevalidate:
  "all_cached_ok s \<Longrightarrow> all_cached_ok (snd (staleWhileRevalidate net req n s))"
  by (simp add: staleWhileRevalidate_def fetch_def cache_put_cases Let_def all_cached_ok_store_entry
      split: option.splits sum.splits)

lemma all_cached_ok_handleOfflineFallback:
  "all_cached_ok s \<Longrightarrow> all_cached_ok (snd (handleOfflineFallback req s))"
  by (simp add: handleOfflineFallback_def Let_def split: option.splits)

lemma all_cached_ok_handleFetch_try:
  "all_cached_ok s \<Longrightarrow> all_cached_ok (snd (handleFetch_try net req s))"
  by (simp add: handleFetch_try_def all_cached_ok_cacheFirst all_cached_ok_networkFirst
      all_cached_ok_staleWhileRevalidate)

lemma all_cached_ok_handleFetch:
  assumes "all_cached_ok s"
  shows "all_cached_ok (snd (handleFetch net req s))"
proof (cases "handleFetch_try net req s")
  case (Pair r s1)
  then have s1: "all_cached_ok s1"
    using all_cached_ok_handleFetch_try [OF assms, of net req] by simp
  show ?thesis
  proof (cases r)
    case (Rejected e)
    then show ?thesis
      using Pair all_cached_ok_handleOfflineFallback [OF s1, of req]
      by (simp add: handleFetch_def)
  qed (use Pair s1 in \<open>simp_all add: handleFetch_def\<close>)
qed

lemma all_cached_ok_safeCacheAdd:
  "all_cached_ok s \<Longrightarrow> all_cached_ok (snd (safeCacheAdd net n u s))"
  by (simp add: safeCacheAdd_def safeCacheAdd_try_def fetch_def cache_put_url_def all_cached_ok_store_entry
      split: sum.splits)

lemma all_cached_ok_allSettled:
  "all_cached_ok s \<Longrightarrow> all_cached_ok (snd (allSettled_safeCacheAdd net n assets s))"
proof (induction assets arbitrary: s)
  case Nil
  then show ?case by simp
next
  case (Cons a assets)
  obtain b s1 where a: "safeCacheAdd net n a s = (b, s1)" by (cases "safeCacheAdd net n a s")
  then have "all_cached_ok s1"
    using all_cached_ok_safeCacheAdd [OF Cons.prems, of net n a] by simp
  then have "all_cached_ok (snd (allSettled_safeCacheAdd net n assets s1))"
    by (rule Cons.IH)
  then show ?case using a by (auto split: prod.splits)
qed

lemma all_cached_ok_install_with:
  assumes "all_cached_ok s"
  shows "all_cached_ok (snd (install_with assets net s))"
proof -
  let ?s2 = "caches_open DYNAMIC_CACHE (caches_open STATIC_CACHE s)"
  have "all_cached_ok ?s2" using assms by simp
  then have "all_cached_ok (snd (allSettled_safeCacheAdd net STATIC_CACHE assets ?s2))"
    by (rule all_cached_ok_allSettled)
  then show ?thesis
    by (auto simp: install_with_def Let_def split: prod.splits)
qed

subsection \<open>Sample inputs and routing\<close>

lemma get_request_sel [simp]:
  "url (get_request p m) = p" "pathname (get_request p m) = p" "mode (get_request p m) = m"
  by (simp_all add: get_request_def)

lemma ok_page [simp]: "ok (page b)"
  by (simp add: ok_def page_def)

lemma response_storable_page [simp]: "response_storable (page b)"
  by (simp add: response_storable_def page_def vary_star_def)

lemma request_storable_get_request [simp]: "request_storable (get_request p m)"
  by (simp add: request_storable_def get_request_def)

lemma put_accepts_page [simp]: "put_accepts (get_request p m) (page b)"
  by (simp add: put_accepts_def)

lemma empty_state_sel [simp]:
  "caches empty_state = []" "trace empty_state = []" "pending empty_state = []"
  by (simp_all add: empty_state_def)



subsection \<open>Offline fallback and the fetch handler\<close>

lemma handleOfflineFallback_result:
  "fst (handleOfflineFallback req s) =
     Resolved
       (case (if mode req = ''navigate'' then cache_match STATIC_CACHE ''/index.html'' s
              else None) of
          Some fallback \<Rightarrow> fallback
        | None \<Rightarrow>
            (case caches_match (url req) s of
               Some cachedResponse \<Rightarrow> cachedResponse
             | None \<Rightarrow> offline_response))"
  by (simp add: handleOfflineFallback_def Let_def split: option.splits)

lemma cacheFirst_defined: "fst (cacheFirst net req n s) \<noteq> ResolvedUndefined"
  by (simp add: cacheFirst_def fetch_def cache_put_cases Let_def split: option.splits sum.splits)

lemma networkFirst_defined: "fst (networkFirst net req n s) \<noteq> ResolvedUndefined"
  by (simp add: networkFirst_def fetch_def cache_put_cases Let_def split: option.splits sum.splits)

lemma handleFetch_try_two_way:
  "handleFetch_try net req s =
     (if isStaticAsset (pathname req) then cacheFirst net req STATIC_CACHE s
      else networkFirst net req DYNAMIC_CACHE s)"
  using api_prefix_is_dynamic [of "pathname req"] by (auto simp: handleFetch_try_def)

lemma handleFetch_try_defined: "fst (handleFetch_try net req s) \<noteq> ResolvedUndefined"
  by (simp add: handleFetch_try_two_way cacheFirst_defined networkFirst_defined)

lemma handleFetch_responds: "\<exists>r. fst (handleFetch net req s) = Resolved r"
proof (cases "handleFetch_try net req s")
  case (Pair res s1)
  show ?thesis
  proof (cases res)
    case (Resolved r)
    then show ?thesis using Pair by (simp add: handleFetch_def)
  next
    case ResolvedUndefined
    then show ?thesis using Pair handleFetch_try_defined [of net req s] by simp
  next
    case (Rejected e)
    then show ?thesis
      using Pair by (simp add: handleFetch_def handleOfflineFallback_result)
  qed
qed

subsection \<open>Activation\<close>

lemma caches_fold_caches_delete:
  "caches (fold caches_delete ns s) = filter (\<lambda>p. fst p \<notin> set ns) (caches s)"
proof (induction ns arbitrary: s)
  case Nil
  show ?case by simp
next
  case (Cons n ns)
  have "caches (caches_delete n s) = filter (\<lambda>p. fst p \<noteq> n) (caches s)"
    by (auto simp: caches_delete_def AList.delete_eq intro: filter_cong)
  then show ?case
    by (auto simp: Cons.IH intro: filter_cong)
qed

lemma trace_fold_caches_delete:
  "trace (fold caches_delete ns s) = trace s @ map CacheDelete ns"
  by (induction ns arbitrary: s) (simp_all add: caches_delete_def)

lemma is_old_cache_spec:
  "is_old_cache n \<longleftrightarrow>
     n \<notin> {''nabha-static-v2.0'', ''nabha-dynamic-v2.0''} \<and> prefix ''nabha-'' n"
  by (simp add: is_old_cache_def STATIC_CACHE_def DYNAMIC_CACHE_def startsWith_prefix)

lemma caches_activate:
  "caches (activate s) = filter (\<lambda>p. \<not> is_old_cache (fst p)) (caches s)"
proof -
  have "fst p \<notin> set (filter is_old_cache (map fst (caches s))) \<longleftrightarrow> \<not> is_old_cache (fst p)"
    if "p \<in> set (caches s)" for p
    using that by auto
  then show ?thesis
    by (simp add: activate_def caches_fold_caches_delete cong: filter_cong)
qed

lemma caches_activate_v1:
  "caches (activate_v1 s) = filter (\<lambda>p. fst p = CACHE_NAME_v1) (caches s)"
proof -
  have "fst p \<notin> set (filter (\<lambda>key. key \<noteq> CACHE_NAME_v1) (map fst (caches s)))
          \<longleftrightarrow> fst p = CACHE_NAME_v1"
    if "p \<in> set (caches s)" for p
    using that by auto
  then show ?thesis
    by (simp add: activate_v1_def caches_fold_caches_delete cong: filter_cong)
qed

subsection \<open>Background synchronisation\<close>

lemma pending_sync_loop [simp]: "pending (sync_loop post xs s) = pending s"
  by (induction xs arbitrary: s)
     (simp_all add: submitFeedback_def removePendingSubmission_def split: sum.splits)

lemma caches_sync_loop [simp]: "caches (sync_loop post xs s) = caches s"
  by (induction xs arbitrary: s)
     (simp_all add: submitFeedback_def removePendingSubmission_def split: sum.splits)

lemma trace_sync_loop:
  "trace (sync_loop post xs s) =
     trace s @
     concat (map (\<lambda>x. NetPost ''/api/feedback'' x
                        # (if isl (post ''/api/feedback'' x) then []
                           else [RemovePending (sub_id x)])) xs)"
  by (induction xs arbitrary: s)
     (simp_all add: submitFeedback_def removePendingSubmission_def split: sum.splits)

lemma syncFeedbackSubmissions_nothing: "syncFeedbackSubmissions post s = s"
  by (simp add: syncFeedbackSubmissions_def getPendingSubmissions_def)

subsection \<open>Responses that are not ok\<close>

lemma networkFirst_not_ok:
  assumes "net (url req) = Inr r" and "\<not> ok r"
  shows "fst (networkFirst net req n s) = Resolved r"
    and "caches (snd (networkFirst net req n s)) = caches (caches_open n s)"
  using assms by (simp_all add: networkFirst_def fetch_def cache_put_cases Let_def)

lemma cacheFirst_not_ok:
  assumes "net (url req) = Inr r" and "\<not> ok r" and "cache_match n (url req) s = None"
  shows "fst (cacheFirst net req n s) = Resolved r"
    and "caches (snd (cacheFirst net req n s)) = caches (caches_open n s)"
  using assms by (simp_all add: cacheFirst_def fetch_def cache_put_cases Let_def)

lemma staleWhileRevalidate_not_ok:
  assumes "net (url req) = Inr r" and "\<not> ok r"
  shows "caches (snd (staleWhileRevalidate net req n s)) = caches (caches_open n s)"
  using assms by (simp add: staleWhileRevalidate_def fetch_def cache_put_cases Let_def split: option.splits)

lemma safeCacheAdd_not_ok:
  assumes "net u = Inr r" and "\<not> ok r"
  shows "fst (safeCacheAdd net n u s) = False"
    and "caches (snd (safeCacheAdd net n u s)) = caches s"
  using assms by (simp_all add: safeCacheAdd_def safeCacheAdd_try_def fetch_def cache_put_url_def)

subsection \<open>Installation\<close>

lemma allSettled_all_fulfilled:
  "length (filter is_fulfilled (fst (allSettled_safeCacheAdd net n assets s))) = length assets"
proof (induction assets arbitrary: s)
  case Nil
  show ?case by simp
next
  case (Cons a assets)
  obtain b s1 where a: "safeCacheAdd net n a s = (b, s1)"
    by (cases "safeCacheAdd net n a s")
  obtain rs s2 where r: "allSettled_safeCacheAdd net n assets s1 = (rs, s2)"
    by (cases "allSettled_safeCacheAdd net n assets s1")
  have "length (filter is_fulfilled rs) = length assets"
    using Cons.IH [of s1] r by simp
  then show ?case using a r by simp
qed

lemma install_with_reports_length:
  "fst (install_with assets net s) = (length assets, length assets)"
proof -
  let ?s2 = "caches_open DYNAMIC_CACHE (caches_open STATIC_CACHE s)"
  obtain rs s3 where r: "allSettled_safeCacheAdd net STATIC_CACHE assets ?s2 = (rs, s3)"
    by (cases "allSettled_safeCacheAdd net STATIC_CACHE assets ?s2")
  have "length (filter is_fulfilled rs) = length assets"
    using allSettled_all_fulfilled [of net STATIC_CACHE assets ?s2] r by simp
  then show ?thesis using r by (simp add: install_with_def Let_def)
qed

lemma cache_match_store_entry_other:
  "k' \<noteq> k \<Longrightarrow> cache_match n' k' (store_entry n k r s) = cache_match n' k' s"
  by (auto simp: cache_match_def store_entry_def AList.map_of_map_entry AList.update_conv'
      split: option.splits)

lemma safeCacheAdd_unreachable:
  assumes "net k = Inl e"
  shows "cache_match n' k (snd (safeCacheAdd net n u s)) = cache_match n' k s"
proof (cases "u = k")
  case True
  then show ?thesis
    using assms by (simp add: safeCacheAdd_def safeCacheAdd_try_def fetch_def cache_put_url_def)
next
  case False
  then show ?thesis
    by (simp add: safeCacheAdd_def safeCacheAdd_try_def fetch_def cache_put_url_def cache_match_store_entry_other
        split: sum.splits)
qed

lemma allSettled_unreachable:
  assumes "net k = Inl e"
  shows "cache_match n' k (snd (allSettled_safeCacheAdd net n assets s)) = cache_match n' k s"
proof (induction assets arbitrary: s)
  case Nil
  show ?case by simp
next
  case (Cons a assets)
  obtain b s1 where a: "safeCacheAdd net n a s = (b, s1)"
    by (cases "safeCacheAdd net n a s")
  have "cache_match n' k s1 = cache_match n' k s"
    using safeCacheAdd_unreachable [of net k e n' n a s] assms a by simp
  moreover have "cache_match n' k (snd (allSettled_safeCacheAdd net n assets s1))
                   = cache_match n' k s1"
    by (rule Cons.IH)
  ultimately show ?case using a by (auto split: prod.splits)
qed

lemma install_with_unreachable:
  assumes "net k = Inl e"
  shows "cache_match n' k (snd (install_with assets net s)) = cache_match n' k s"
proof -
  let ?s2 = "caches_open DYNAMIC_CACHE (caches_open STATIC_CACHE s)"
  have "cache_match n' k (snd (allSettled_safeCacheAdd net STATIC_CACHE assets ?s2))
          = cache_match n' k ?s2"
    using allSettled_unreachable [of net k e n' STATIC_CACHE assets ?s2] assms by simp
  then show ?thesis
    by (auto simp: install_with_def Let_def split: prod.splits)
qed

subsection \<open>The cache storage that can fail\<close>

lemma storage_io_no_faults [simp]:
  "caches_open_io no_faults n s = Inr (caches_open n s)"
  "cache_match_io no_faults n k s = Inr (cache_match n k s)"
  "caches_match_io no_faults k s = Inr (caches_match k s)"
  "cache_put_io no_faults n req r s = cache_put n req r s"
  by (simp_all add: caches_open_io_def cache_match_io_def caches_match_io_def cache_put_io_def
      no_faults_def split: sum.splits)

lemma cacheFirst_io_no_faults: "cacheFirst_io no_faults net req n s = cacheFirst net req n s"
  by (simp add: cacheFirst_io_def cacheFirst_def Let_def
      split: option.splits prod.splits sum.splits)

lemma networkFirst_io_no_faults:
  "networkFirst_io no_faults net req n s = networkFirst net req n s"
  by (simp add: networkFirst_io_def networkFirst_def Let_def
      split: option.splits prod.splits sum.splits)

lemma staleWhileRevalidate_io_no_faults:
  "staleWhileRevalidate_io no_faults net req n s = staleWhileRevalidate net req n s"
  by (simp add: staleWhileRevalidate_io_def staleWhileRevalidate_def Let_def
      split: option.splits prod.splits sum.splits)

lemma handleOfflineFallback_io_no_faults:
  "handleOfflineFallback_io no_faults req s = handleOfflineFallback req s"
  by (simp add: handleOfflineFallback_io_def handleOfflineFallback_def Let_def
      split: option.splits)

lemma handleFetch_try_io_no_faults:
  "handleFetch_try_io no_faults net req s = handleFetch_try net req s"
  by (simp add: handleFetch_try_io_def handleFetch_try_def cacheFirst_io_no_faults
      networkFirst_io_no_faults staleWhileRevalidate_io_no_faults)

lemma handleFetch_io_no_faults: "handleFetch_io no_faults net req s = handleFetch net req s"
  by (simp add: handleFetch_io_def handleFetch_def handleFetch_try_io_no_faults
      handleOfflineFallback_io_no_faults split: prod.splits result.splits)

lemma on_fetch_io_no_faults: "on_fetch_io no_faults net req s = on_fetch net req s"
  by (simp add: on_fetch_io_def on_fetch_def handleFetch_io_no_faults)

lemma cacheFirst_io_defined: "fst (cacheFirst_io d net req n s) \<noteq> ResolvedUndefined"
  by (simp add: cacheFirst_io_def fetch_def split: option.splits sum.splits)

lemma networkFirst_io_defined: "fst (networkFirst_io d net req n s) \<noteq> ResolvedUndefined"
  by (simp add: networkFirst_io_def fetch_def split: option.splits sum.splits)

lemma handleFetch_try_io_two_way:
  "handleFetch_try_io d net req s =
     (if isStaticAsset (pathname req) then cacheFirst_io d net req STATIC_CACHE s
      else networkFirst_io d net req DYNAMIC_CACHE s)"
  using api_prefix_is_dynamic [of "pathname req"] by (auto simp: handleFetch_try_io_def)

lemma handleFetch_try_io_defined: "fst (handleFetch_try_io d net req s) \<noteq> ResolvedUndefined"
  by (simp add: handleFetch_try_io_two_way cacheFirst_io_defined networkFirst_io_defined)

lemma match_any_none:
  "(\<forall>p \<in> set cs. map_of (snd p) k = None) \<Longrightarrow> match_any cs k = None"
  by (induction cs k rule: match_any.induct) auto

lemma match_any_first:
  "(\<forall>p \<in> set pre. map_of (snd p) k = None) \<Longrightarrow> map_of c k = Some r \<Longrightarrow>
   match_any (pre @ (name, c) # post) k = Some r"
  by (induction pre k rule: match_any.induct) auto

lemma handleOfflineFallback_io_index:
  assumes "mode req = ''navigate''"
    and "d (OpOpen STATIC_CACHE) = None" and "d (OpMatch STATIC_CACHE ''/index.html'') = None"
    and "cache_match STATIC_CACHE ''/index.html'' s = Some f"
  shows "fst (handleOfflineFallback_io d req s) = Resolved f"
  using assms
  by (simp add: handleOfflineFallback_io_def caches_open_io_def cache_match_io_def)

lemma handleOfflineFallback_io_lookup:
  assumes "mode req = ''navigate'' \<longrightarrow>
             d (OpOpen STATIC_CACHE) = None \<and> d (OpMatch STATIC_CACHE ''/index.html'') = None"
    and "d (OpMatchAll (url req)) = None"
    and "\<not> (mode req = ''navigate'' \<and> cache_match STATIC_CACHE ''/index.html'' s \<noteq> None)"
  shows "fst (handleOfflineFallback_io d req s) =
           Resolved (case match_any (caches s) (url req) of
                       Some cachedResponse \<Rightarrow> cachedResponse
                     | None \<Rightarrow> offline_response)"
proof (cases "mode req = ''navigate''")
  case True
  then have "cache_match STATIC_CACHE ''/index.html'' s = None" using assms(3) by simp
  moreover have "caches_match (url req) (caches_open STATIC_CACHE s) = match_any (caches s) (url req)"
    by (simp add: caches_match_def [of _ s, symmetric])
  ultimately show ?thesis
    using True assms(1,2)
    by (simp add: handleOfflineFallback_io_def caches_open_io_def cache_match_io_def
        caches_match_io_def split: option.splits)
next
  case False
  then show ?thesis
    using assms(2)
    by (simp add: handleOfflineFallback_io_def caches_match_io_def caches_match_def
        split: option.splits)
qed

lemma handleOfflineFallback_io_responds:
  assumes "mode req = ''navigate'' \<longrightarrow>
             d (OpOpen STATIC_CACHE) = None \<and> d (OpMatch STATIC_CACHE ''/index.html'') = None"
    and "d (OpMatchAll (url req)) = None"
  shows "\<exists>r. fst (handleOfflineFallback_io d req s) = Resolved r"
proof (cases "mode req = ''navigate'' \<and> cache_match STATIC_CACHE ''/index.html'' s \<noteq> None")
  case True
  then show ?thesis
    using assms(1) handleOfflineFallback_io_index [of req d s] by auto
next
  case False
  then show ?thesis
    using handleOfflineFallback_io_lookup [OF assms False] by simp
qed

lemma handleFetch_io_responds:
  assumes "mode req = ''navigate'' \<longrightarrow>
             d (OpOpen STATIC_CACHE) = None \<and> d (OpMatch STATIC_CACHE ''/index.html'') = None"
    and "d (OpMatchAll (url req)) = None"
  shows "\<exists>r. fst (handleFetch_io d net req s) = Resolved r"
proof (cases "handleFetch_try_io d net req s")
  case (Pair res s1)
  show ?thesis
  proof (cases res)
    case (Resolved r)
    then show ?thesis using Pair by (simp add: handleFetch_io_def)
  next
    case ResolvedUndefined
    then show ?thesis using Pair handleFetch_try_io_defined [of d net req s] by simp
  next
    case (Rejected e)
    then show ?thesis
      using Pair handleOfflineFallback_io_responds [OF assms, of s1]
      by (simp add: handleFetch_io_def)
  qed
qed

section \<open>The claims\<close>

subsection \<open>Routing\<close>



text \<open>
  C9: a path that starts with \<open>/api/\<close> contains \<open>api\<close>, so \<open>isDynamicAsset\<close> holds of it;
  the guard of the stale-while-revalidate branch of \<open>handleFetch\<close> is therefore never
  satisfied, and every request is served by cache-first (static paths) or network-first
  (all others, among them the \<open>/api/\<close> paths that are not static).
\<close>

theorem api_branch_unreachable:
  "(startsWith p ''/api/'' \<longrightarrow> isDynamicAsset p)
   \<and> \<not> (\<not> isStaticAsset p \<and> \<not> isDynamicAsset p \<and> startsWith p ''/api/'')
   \<and> (startsWith (pathname req) ''/api/'' \<and> \<not> isStaticAsset (pathname req) \<longrightarrow>
        handleFetch_try net req s = networkFirst net req DYNAMIC_CACHE s)
   \<and> handleFetch_try net req s =
        (if isStaticAsset (pathname req) then cacheFirst net req STATIC_CACHE s
         else networkFirst net req DYNAMIC_CACHE s)"
  using api_prefix_is_dynamic [of p] api_prefix_is_dynamic [of "pathname req"]
  by (auto simp: handleFetch_try_def)

theorem api_branch_unreachable_witness:
  "startsWith ''/api/lessons'' ''/api/''
   \<and> \<not> isStaticAsset ''/api/lessons''
   \<and> isDynamicAsset ''/api/lessons''
   \<and> handleFetch_try net_down (get_request ''/api/lessons'' ''cors'') empty_state
       = networkFirst net_down (get_request ''/api/lessons'' ''cors'') DYNAMIC_CACHE empty_state"
proof -
  have a: "startsWith ''/api/lessons'' ''/api/''" by (simp add: startsWith_def)
  have b: "\<not> isStaticAsset ''/api/lessons''"
    by (simp add: isStaticAsset_def static_extensions_def endsWith_def)
  have p: "pathname (get_request ''/api/lessons'' ''cors'') = ''/api/lessons''"
    by (simp add: get_request_def)
  show ?thesis
    using api_branch_unreachable [of "''/api/lessons''" "get_request ''/api/lessons'' ''cors''"
        net_down empty_state] a b p
    by simp
qed

subsection \<open>The strategies\<close>








subsection \<open>Stale while revalidate\<close>

text \<open>
  C4, as amended: when the partition holds an entry for the request, \<open>staleWhileRevalidate\<close>
  returns it, whatever the network does: the fetch is not awaited. Once the detached fetch
  has settled with an ok response that \<open>cache.put\<close> accepts, the partition holds that
  response. When the partition holds no entry and the fetch succeeds, the caller receives
  the response of the fetch.
\<close>

theorem staleWhileRevalidate_serves_stale:
  "(\<forall>c. cache_match n (url req) s = Some c \<longrightarrow>
       (\<forall>net'. fst (staleWhileRevalidate net' req n s) = Resolved c))
   \<and> (\<forall>r. net (url req) = Inr r \<and> ok r \<and> put_accepts req r \<longrightarrow>
         cache_match n (url req) (snd (staleWhileRevalidate net req n s)) = Some r)
   \<and> (\<forall>r. cache_match n (url req) s = None \<and> net (url req) = Inr r \<longrightarrow>
         fst (staleWhileRevalidate net req n s) = Resolved r)"
proof -
  have hit: "fst (staleWhileRevalidate net' req n s) = Resolved c"
    if "cache_match n (url req) s = Some c" for c net'
    using that by (rule staleWhileRevalidate_hit)
  have refreshed: "cache_match n (url req) (snd (staleWhileRevalidate net req n s)) = Some r"
    if "net (url req) = Inr r" and "ok r" and "put_accepts req r" for r
    using that by (simp add: staleWhileRevalidate_cache)
  have miss: "fst (staleWhileRevalidate net req n s) = Resolved r"
    if "cache_match n (url req) s = None" and "net (url req) = Inr r" for r
    using staleWhileRevalidate_miss [OF that(1), of net] that(2) by simp
  show ?thesis
    using hit refreshed miss by blast
qed

theorem staleWhileRevalidate_serves_stale_witness:
  "cache_match DYNAMIC_CACHE ''/api/lessons'' stocked_state = Some (page ''lessons'')
   \<and> fst (staleWhileRevalidate net_down (get_request ''/api/lessons'' ''cors'') DYNAMIC_CACHE
        stocked_state) = Resolved (page ''lessons'')
   \<and> fst (staleWhileRevalidate net_up (get_request ''/api/lessons'' ''cors'') DYNAMIC_CACHE
        stocked_state) = Resolved (page ''lessons'')
   \<and> cache_match DYNAMIC_CACHE ''/api/lessons''
        (snd (staleWhileRevalidate net_up (get_request ''/api/lessons'' ''cors'') DYNAMIC_CACHE
          stocked_state)) = Some (page ''/api/lessons'')
   \<and> cache_match DYNAMIC_CACHE ''/api/lessons'' empty_state = None
   \<and> fst (staleWhileRevalidate net_up (get_request ''/api/lessons'' ''cors'') DYNAMIC_CACHE
        empty_state) = Resolved (page ''/api/lessons'')"
proof -
  let ?api = "get_request ''/api/lessons'' ''cors''"
  have cached: "cache_match DYNAMIC_CACHE (url ?api) stocked_state = Some (page ''lessons'')"
    by (simp add: cache_match_def stocked_state_def DYNAMIC_CACHE_def)
  have absent: "cache_match DYNAMIC_CACHE (url ?api) empty_state = None"
    by (simp add: cache_match_def)
  have up: "net_up (url ?api) = Inr (page ''/api/lessons'')"
    by (simp add: net_up_def)
  have acc: "put_accepts ?api (page ''/api/lessons'')"
    by simp
  note stocked = staleWhileRevalidate_serves_stale
    [where n = DYNAMIC_CACHE and req = ?api and s = stocked_state and net = net_up]
  note empty = staleWhileRevalidate_serves_stale
    [where n = DYNAMIC_CACHE and req = ?api and s = empty_state and net = net_up]
  have 1: "fst (staleWhileRevalidate net_down ?api DYNAMIC_CACHE stocked_state)
             = Resolved (page ''lessons'')"
    using stocked cached by blast
  have 2: "fst (staleWhileRevalidate net_up ?api DYNAMIC_CACHE stocked_state)
             = Resolved (page ''lessons'')"
    using stocked cached by blast
  have 3: "cache_match DYNAMIC_CACHE (url ?api)
             (snd (staleWhileRevalidate net_up ?api DYNAMIC_CACHE stocked_state))
             = Some (page ''/api/lessons'')"
    using stocked up ok_page acc by blast
  have 4: "fst (staleWhileRevalidate net_up ?api DYNAMIC_CACHE empty_state)
             = Resolved (page ''/api/lessons'')"
    using empty absent up by blast
  show ?thesis
    using cached absent 1 2 3 4 by simp
qed

text \<open>
  The fourth claim as first stated gives the caller the failure of the fetch when there is
  no cached response. The function does not: with no entry in the partition and the fetch
  failing, it resolves to \<open>undefined\<close>, because the \<open>catch\<close> handler of the chain
  swallows the rejection. (No request reaches the function through \<open>handleFetch\<close>.)
\<close>

theorem staleWhileRevalidate_failure_undefined:
  "cache_match DYNAMIC_CACHE ''/api/lessons'' empty_state = None
   \<and> net_down ''/api/lessons'' = Inl NetworkError
   \<and> fst (staleWhileRevalidate net_down (get_request ''/api/lessons'' ''cors'') DYNAMIC_CACHE
        empty_state) = ResolvedUndefined"
proof -
  have miss: "cache_match DYNAMIC_CACHE (url (get_request ''/api/lessons'' ''cors'')) empty_state
                = None"
    by (simp add: cache_match_def)
  have down: "net_down ''/api/lessons'' = Inl NetworkError"
    by (simp add: net_down_def)
  show ?thesis
    using miss down
      staleWhileRevalidate_miss [OF miss, of net_down]
    by simp
qed

subsection \<open>Failure containment\<close>

text \<open>
  C5, as amended: for every intercepted GET request the promise of the fetch handler
  resolves to a response, provided the operations of the cache storage that the offline
  fallback itself performs succeed (for a navigation the opening of the static partition and
  the lookup of \<open>/index.html\<close>, and the lookup of the request across all partitions).
  Every error raised by the strategy, be it a failed fetch, a rejected \<open>cache.put\<close> or a
  failing operation of the cache storage, is caught and answered by the offline fallback.
  The fallback answers with the entry of \<open>/index.html\<close> in the static partition when the
  request is a navigation and the entry exists; else with the entry for the request's URL
  in the first partition, in creation order, that has one; else with the synthesized
  response of status 503 whose JSON body starts with the field \<open>error\<close> of value
  \<open>Offline\<close>.
\<close>

theorem handleFetch_responds_when_fallback_storage_works:
  assumes \<open>on_fetch_io d net req s = Some out\<close>
    and \<open>mode req = ''navigate'' \<longrightarrow>
           d (OpOpen STATIC_CACHE) = None \<and> d (OpMatch STATIC_CACHE ''/index.html'') = None\<close>
    and \<open>d (OpMatchAll (url req)) = None\<close>
  shows \<open>(\<exists>r. fst out = Resolved r)
    \<and> (\<forall>e s1. handleFetch_try_io d net req s = (Rejected e, s1) \<longrightarrow>
          out = handleOfflineFallback_io d req s1
          \<and> (\<forall>f. mode req = ''navigate''
                   \<and> cache_match STATIC_CACHE ''/index.html'' s1 = Some f \<longrightarrow>
                 fst out = Resolved f)
          \<and> (\<not> (mode req = ''navigate''
                   \<and> cache_match STATIC_CACHE ''/index.html'' s1 \<noteq> None) \<longrightarrow>
                 (\<forall>pre name c post r.
                     caches s1 = pre @ (name, c) # post
                     \<and> (\<forall>p \<in> set pre. map_of (snd p) (url req) = None)
                     \<and> map_of c (url req) = Some r \<longrightarrow>
                     fst out = Resolved r)
                 \<and> ((\<forall>p \<in> set (caches s1). map_of (snd p) (url req) = None) \<longrightarrow>
                      fst out = Resolved offline_response)))
    \<and> status offline_response = 503
    \<and> prefix ''{"error":"Offline",'' (body offline_response)\<close>
proof -
  have out: "out = handleFetch_io d net req s"
    using assms(1) by (auto simp: on_fetch_io_def split: if_splits)
  have responds: "\<exists>r. fst out = Resolved r"
    unfolding out using assms(2,3) by (rule handleFetch_io_responds)
  have caught: "out = handleOfflineFallback_io d req s1
          \<and> (\<forall>f. mode req = ''navigate''
                   \<and> cache_match STATIC_CACHE ''/index.html'' s1 = Some f \<longrightarrow>
                 fst out = Resolved f)
          \<and> (\<not> (mode req = ''navigate''
                   \<and> cache_match STATIC_CACHE ''/index.html'' s1 \<noteq> None) \<longrightarrow>
                 (\<forall>pre name c post r.
                     caches s1 = pre @ (name, c) # post
                     \<and> (\<forall>p \<in> set pre. map_of (snd p) (url req) = None)
                     \<and> map_of c (url req) = Some r \<longrightarrow>
                     fst out = Resolved r)
                 \<and> ((\<forall>p \<in> set (caches s1). map_of (snd p) (url req) = None) \<longrightarrow>
                      fst out = Resolved offline_response))"
    if t: "handleFetch_try_io d net req s = (Rejected e, s1)" for e s1
  proof -
    have fb: "out = handleOfflineFallback_io d req s1"
      using t out by (simp add: handleFetch_io_def)
    have index: "fst out = Resolved f"
      if "mode req = ''navigate''" and "cache_match STATIC_CACHE ''/index.html'' s1 = Some f"
      for f
      unfolding fb using that assms(2)
      by (simp add: handleOfflineFallback_io_index)
    have lookup: "fst out =
           Resolved (case match_any (caches s1) (url req) of
                       Some cachedResponse \<Rightarrow> cachedResponse
                     | None \<Rightarrow> offline_response)"
      if "\<not> (mode req = ''navigate''
              \<and> cache_match STATIC_CACHE ''/index.html'' s1 \<noteq> None)"
      unfolding fb using assms(2,3) that by (rule handleOfflineFallback_io_lookup)
    have found: "fst out = Resolved r"
      if "\<not> (mode req = ''navigate''
              \<and> cache_match STATIC_CACHE ''/index.html'' s1 \<noteq> None)"
        and "caches s1 = pre @ (name, c) # post"
        and "\<forall>p \<in> set pre. map_of (snd p) (url req) = None"
        and "map_of c (url req) = Some r"
      for pre name c post r
      using lookup [OF that(1)] match_any_first [OF that(3,4), of name post] that(2)
      by simp
    have unmatched: "fst out = Resolved offline_response"
      if "\<not> (mode req = ''navigate''
              \<and> cache_match STATIC_CACHE ''/index.html'' s1 \<noteq> None)"
        and "\<forall>p \<in> set (caches s1). map_of (snd p) (url req) = None"
      using lookup [OF that(1)] match_any_none [OF that(2)] by simp
    show ?thesis
    proof (intro conjI allI impI)
      show "out = handleOfflineFallback_io d req s1"
        by (rule fb)
    next
      fix f
      assume "mode req = ''navigate'' \<and> cache_match STATIC_CACHE ''/index.html'' s1 = Some f"
      then show "fst out = Resolved f"
        using index by blast
    next
      fix pre name c post r
      assume "\<not> (mode req = ''navigate''
                  \<and> cache_match STATIC_CACHE ''/index.html'' s1 \<noteq> None)"
        and "caches s1 = pre @ (name, c) # post
             \<and> (\<forall>p \<in> set pre. map_of (snd p) (url req) = None)
             \<and> map_of c (url req) = Some r"
      then show "fst out = Resolved r"
        using found [of pre name c post r] by blast
    next
      assume "\<not> (mode req = ''navigate''
                  \<and> cache_match STATIC_CACHE ''/index.html'' s1 \<noteq> None)"
        and "\<forall>p \<in> set (caches s1). map_of (snd p) (url req) = None"
      then show "fst out = Resolved offline_response"
        using unmatched by blast
    qed
  qed
  have "status offline_response = 503"
    by (simp add: offline_response_def)
  moreover have \<open>prefix ''{"error":"Offline",'' (body offline_response)\<close>
    by (simp add: offline_response_def)
  ultimately show ?thesis
    using responds caught by blast
qed

theorem handleFetch_responds_when_fallback_storage_works_witness:
  "on_fetch_io no_faults net_down (get_request ''/assets/videos/x.mp4'' ''navigate'') stocked_state
     = Some (handleFetch_io no_faults net_down (get_request ''/assets/videos/x.mp4'' ''navigate'')
         stocked_state)
   \<and> fst (handleFetch_try_io no_faults net_down (get_request ''/assets/videos/x.mp4'' ''navigate'')
        stocked_state) = Rejected NetworkError
   \<and> fst (handleFetch_io no_faults net_down (get_request ''/assets/videos/x.mp4'' ''navigate'')
        stocked_state) = Resolved (page ''index'')
   \<and> fst (handleFetch_io no_faults net_down (get_request ''/assets/videos/x.mp4'' ''cors'')
        stocked_state) = Resolved offline_response
   \<and> disk_without_dynamic (OpOpen DYNAMIC_CACHE) = Some StorageError
   \<and> disk_without_dynamic (OpMatchAll ''/x'') = None
   \<and> handleFetch_try_io disk_without_dynamic net_up (get_request ''/x'' ''cors'') stocked_state
       = (Rejected StorageError, stocked_state)
   \<and> fst (handleFetch_io disk_without_dynamic net_up (get_request ''/x'' ''cors'') stocked_state)
       = Resolved (page ''x'')"
proof -
  let ?nav = "get_request ''/assets/videos/x.mp4'' ''navigate''"
  let ?cors = "get_request ''/assets/videos/x.mp4'' ''cors''"
  let ?x = "get_request ''/x'' ''cors''"
  let ?s1 = "stocked_state\<lparr>trace := [NetFetch ''/assets/videos/x.mp4'']\<rparr>"
  have i: "on_fetch_io d net (get_request p m) s = Some (handleFetch_io d net (get_request p m) s)"
    for d net p m s
    by (simp add: on_fetch_io_def get_request_def startsWith_def)
  have ns: "\<not> isStaticAsset ''/assets/videos/x.mp4''" "\<not> isStaticAsset ''/x''"
    by (simp_all add: isStaticAsset_def static_extensions_def endsWith_def)
  have names: "DYNAMIC_CACHE \<in> fst ` set (caches stocked_state)"
    by (simp add: stocked_state_def DYNAMIC_CACHE_def)
  have t: "handleFetch_try_io no_faults net_down (get_request ''/assets/videos/x.mp4'' m)
             stocked_state = (Rejected NetworkError, ?s1)" for m
    using ns names
    by (simp add: handleFetch_try_io_two_way networkFirst_io_no_faults networkFirst_def
        caches_open_id fetch_def net_down_def cache_match_def stocked_state_def
        DYNAMIC_CACHE_def)
  have tx: "handleFetch_try_io disk_without_dynamic net_up ?x stocked_state
              = (Rejected StorageError, stocked_state)"
    using ns
    by (simp add: handleFetch_try_io_two_way networkFirst_io_def caches_open_io_def
        disk_without_dynamic_def DYNAMIC_CACHE_def)
  have ok_nav: "mode ?nav = ''navigate'' \<longrightarrow>
                  no_faults (OpOpen STATIC_CACHE) = None
                  \<and> no_faults (OpMatch STATIC_CACHE ''/index.html'') = None"
    and ok_cors: "mode ?cors = ''navigate'' \<longrightarrow>
                  no_faults (OpOpen STATIC_CACHE) = None
                  \<and> no_faults (OpMatch STATIC_CACHE ''/index.html'') = None"
    and ok_x: "mode ?x = ''navigate'' \<longrightarrow>
                  disk_without_dynamic (OpOpen STATIC_CACHE) = None
                  \<and> disk_without_dynamic (OpMatch STATIC_CACHE ''/index.html'') = None"
    and all_nav: "no_faults (OpMatchAll (url ?nav)) = None"
    and all_cors: "no_faults (OpMatchAll (url ?cors)) = None"
    and all_x: "disk_without_dynamic (OpMatchAll (url ?x)) = None"
    by (simp_all add: no_faults_def disk_without_dynamic_def)
  note nav = handleFetch_responds_when_fallback_storage_works [OF i ok_nav all_nav]
  note cors = handleFetch_responds_when_fallback_storage_works [OF i ok_cors all_cors]
  note x = handleFetch_responds_when_fallback_storage_works [OF i ok_x all_x]
  have idx: "cache_match STATIC_CACHE ''/index.html'' ?s1 = Some (page ''index'')"
    by (simp add: cache_match_def stocked_state_def STATIC_CACHE_def)
  have 1: "fst (handleFetch_io no_faults net_down ?nav stocked_state) = Resolved (page ''index'')"
    using nav [of net_down stocked_state] t [of "''navigate''"] idx get_request_sel(3)
    by blast
  have none: "\<forall>p \<in> set (caches ?s1). map_of (snd p) (url ?cors) = None"
    by (simp add: stocked_state_def)
  have 2: "fst (handleFetch_io no_faults net_down ?cors stocked_state) = Resolved offline_response"
  proof -
    have "\<not> (mode ?cors = ''navigate''
              \<and> cache_match STATIC_CACHE ''/index.html'' ?s1 \<noteq> None)"
      by simp
    then show ?thesis
      using cors [of net_down stocked_state] t [of "''cors''"] none by blast
  qed
  have 3: "fst (handleFetch_io disk_without_dynamic net_up ?x stocked_state)
             = Resolved (page ''x'')"
  proof -
    have a: "\<not> (mode ?x = ''navigate''
              \<and> cache_match STATIC_CACHE ''/index.html'' stocked_state \<noteq> None)"
      by simp
    have b: "caches stocked_state =
               [(''nabha-static-v1.0'', [(''/old.css'', page ''old'')]),
                (''nabha-static-v2.0'',
                 [(''/index.html'', page ''index''), (''/styles.css'', page ''css'')]),
                (''nabha-dynamic-v2.0'', [(''/api/lessons'', page ''lessons'')])]
               @ (''other-app-v1'', [(''/x'', page ''x'')]) # []"
      by (simp add: stocked_state_def)
    have c: "\<forall>p \<in> set [(''nabha-static-v1.0'', [(''/old.css'', page ''old'')]),
                (''nabha-static-v2.0'',
                 [(''/index.html'', page ''index''), (''/styles.css'', page ''css'')]),
                (''nabha-dynamic-v2.0'', [(''/api/lessons'', page ''lessons'')])].
               map_of (snd p) (url ?x) = None"
      by simp
    have e: "map_of [(''/x'', page ''x'')] (url ?x) = Some (page ''x'')"
      by simp
    show ?thesis
      using x [of net_up stocked_state] tx a b c e by blast
  qed
  show ?thesis
    using i [of no_faults net_down "''/assets/videos/x.mp4''" "''navigate''" stocked_state]
      t [of "''navigate''"] tx 1 2 3
    by (simp add: disk_without_dynamic_def DYNAMIC_CACHE_def)
qed

text \<open>
  The fifth claim as first stated has the promise never reject and the fallback never
  raise. The fallback has no \<open>try\<close>: with the cache storage unavailable and the network
  down, the strategy's error is caught, the lookup of the fallback rejects, and so does the
  promise handed to \<open>respondWith\<close>.
\<close>

theorem handleFetch_rejects_counterexample:
  "on_fetch_io disk_down net_down (get_request ''/assets/videos/x.mp4'' ''cors'') empty_state
     = Some (Rejected StorageError, empty_state)"
  by (simp add: on_fetch_io_def handleFetch_io_def handleFetch_try_io_two_way
      networkFirst_io_def cacheFirst_io_def handleOfflineFallback_io_def caches_open_io_def
      caches_match_io_def disk_down_def get_request_def startsWith_def)

subsection \<open>Cleanup of old partitions\<close>

text \<open>
  C6: activation deletes exactly the existing partitions whose name is neither
  \<open>nabha-static-v2.0\<close> nor \<open>nabha-dynamic-v2.0\<close> and starts with \<open>nabha-\<close>: the
  partitions afterwards are the others, in their order and with their contents, the
  deletions performed are those of the former, and a partition whose name does not start
  with \<open>nabha-\<close> is still there with its contents.
\<close>

theorem activate_deletes_old_partitions:
  "caches (activate s) =
     filter (\<lambda>p. \<not> (fst p \<notin> {''nabha-static-v2.0'', ''nabha-dynamic-v2.0''}
                     \<and> prefix ''nabha-'' (fst p))) (caches s)
   \<and> trace (activate s) =
       trace s @ map CacheDelete
         (filter (\<lambda>n. n \<notin> {''nabha-static-v2.0'', ''nabha-dynamic-v2.0''} \<and> prefix ''nabha-'' n)
            (map fst (caches s)))
   \<and> (\<forall>n c. (n, c) \<in> set (caches s) \<and> \<not> prefix ''nabha-'' n \<longrightarrow>
         (n, c) \<in> set (caches (activate s)))"
proof -
  have 1: "caches (activate s) =
     filter (\<lambda>p. \<not> (fst p \<notin> {''nabha-static-v2.0'', ''nabha-dynamic-v2.0''}
                     \<and> prefix ''nabha-'' (fst p))) (caches s)"
    unfolding caches_activate is_old_cache_spec ..
  have 2: "trace (activate s) =
       trace s @ map CacheDelete
         (filter (\<lambda>n. n \<notin> {''nabha-static-v2.0'', ''nabha-dynamic-v2.0''} \<and> prefix ''nabha-'' n)
            (map fst (caches s)))"
    unfolding activate_def Let_def trace_fold_caches_delete is_old_cache_spec [abs_def] ..
  have 3: "(n, c) \<in> set (caches (activate s))"
    if "(n, c) \<in> set (caches s)" and "\<not> prefix ''nabha-'' n" for n c
    using that unfolding 1 by simp
  show ?thesis using 1 2 3 by blast
qed

theorem activate_deletes_old_partitions_witness:
  "map fst (caches stocked_state)
     = [''nabha-static-v1.0'', ''nabha-static-v2.0'', ''nabha-dynamic-v2.0'', ''other-app-v1'']
   \<and> map fst (caches (activate stocked_state))
     = [''nabha-static-v2.0'', ''nabha-dynamic-v2.0'', ''other-app-v1'']
   \<and> trace (activate stocked_state) = [CacheDelete ''nabha-static-v1.0'']
   \<and> \<not> prefix ''nabha-'' ''other-app-v1''
   \<and> (''other-app-v1'', [(''/x'', page ''x'')]) \<in> set (caches (activate stocked_state))"
proof -
  note a = activate_deletes_old_partitions [of stocked_state]
  have names: "map fst (caches stocked_state)
     = [''nabha-static-v1.0'', ''nabha-static-v2.0'', ''nabha-dynamic-v2.0'', ''other-app-v1'']"
    by (simp add: stocked_state_def)
  have foreign: "\<not> prefix ''nabha-'' ''other-app-v1''"
    by simp
  have there: "(''other-app-v1'', [(''/x'', page ''x'')]) \<in> set (caches stocked_state)"
    by (simp add: stocked_state_def)
  have 1: "map fst (caches (activate stocked_state))
     = [''nabha-static-v2.0'', ''nabha-dynamic-v2.0'', ''other-app-v1'']"
    using a by (simp add: stocked_state_def)
  have 2: "trace (activate stocked_state) = [CacheDelete ''nabha-static-v1.0'']"
    using a by (simp add: stocked_state_def)
  have 3: "(''other-app-v1'', [(''/x'', page ''x'')]) \<in> set (caches (activate stocked_state))"
    using a foreign there by blast
  show ?thesis using names foreign 1 2 3 by simp
qed

subsection \<open>Synchronisation of pending submissions\<close>

text \<open>
  C8, as amended: a sync trigger reads the pending submissions through
  \<open>getPendingSubmissions\<close>, a placeholder that returns the empty array: the trigger posts
  nothing, removes nothing and leaves the state as it is. The loop of the trigger, run on a
  list of submissions each of whose deliveries either fails or is answered with an ok
  response, leaves the queue alone (\<open>removePendingSubmission\<close> is a placeholder too) and
  processes the list in order: each submission is POSTed to the feedback endpoint, a
  delivery answered with an ok response is followed by the call of
  \<open>removePendingSubmission\<close> with the submission's id, and a delivery that fails is followed
  by no such call and by the submissions after it.
\<close>

theorem sync_trigger_and_loop:
  "syncFeedbackSubmissions post s = s
   \<and> on_sync tag post s = s
   \<and> pending (sync_loop post xs s) = pending s
   \<and> (list_all (\<lambda>x. case post ''/api/feedback'' x of Inl e \<Rightarrow> True | Inr r \<Rightarrow> ok r) xs \<longrightarrow>
         trace (sync_loop post xs s) =
           trace s @
           concat (map (\<lambda>x. NetPost ''/api/feedback'' x
                              # (if isl (post ''/api/feedback'' x) then []
                                 else [RemovePending (sub_id x)])) xs))"
  by (simp add: syncFeedbackSubmissions_nothing on_sync_def trace_sync_loop)

theorem sync_trigger_and_loop_witness:
  "list_all (\<lambda>x. case post_all_but_two ''/api/feedback'' x of Inl e \<Rightarrow> True | Inr r \<Rightarrow> ok r)
     three_submissions
   \<and> map sub_id three_submissions = [1, 2, 3]
   \<and> trace (sync_loop post_all_but_two three_submissions empty_state)
       = [NetPost ''/api/feedback'' \<lparr>sub_id = 1, payload = ''one''\<rparr>,
          RemovePending 1,
          NetPost ''/api/feedback'' \<lparr>sub_id = 2, payload = ''two''\<rparr>,
          NetPost ''/api/feedback'' \<lparr>sub_id = 3, payload = ''three''\<rparr>,
          RemovePending 3]
   \<and> on_sync ''feedback-submission'' post_all_but_two stocked_state = stocked_state"
proof -
  have h: "list_all (\<lambda>x. case post_all_but_two ''/api/feedback'' x of
                            Inl e \<Rightarrow> True | Inr r \<Rightarrow> ok r) three_submissions"
    by (simp add: three_submissions_def post_all_but_two_def)
  note loop = sync_trigger_and_loop
    [where post = post_all_but_two and xs = three_submissions and s = empty_state]
  note trigger = sync_trigger_and_loop
    [where post = post_all_but_two and s = stocked_state and tag = "''feedback-submission''"]
  have 1: "trace (sync_loop post_all_but_two three_submissions empty_state) =
           trace empty_state @
           concat (map (\<lambda>x. NetPost ''/api/feedback'' x
                              # (if isl (post_all_but_two ''/api/feedback'' x) then []
                                 else [RemovePending (sub_id x)])) three_submissions)"
    using loop h by blast
  have 2: "on_sync ''feedback-submission'' post_all_but_two stocked_state = stocked_state"
    using trigger by blast
  show ?thesis
    using h 1 2 by (simp add: three_submissions_def post_all_but_two_def)
qed

text \<open>
  The eighth claim as first stated has the trigger deliver the queue 1, 2, 3 and leave 2.
  With the placeholders of the source the trigger delivers nothing: from the queue 1, 2, 3,
  with only the delivery of 2 failing, no POST is made and the queue afterwards is 1, 2, 3.
\<close>

theorem sync_trigger_counterexample:
  "map sub_id (pending stocked_state) = [1, 2, 3]
   \<and> isl (post_all_but_two ''/api/feedback'' \<lparr>sub_id = 2, payload = ''two''\<rparr>)
   \<and> \<not> isl (post_all_but_two ''/api/feedback'' \<lparr>sub_id = 1, payload = ''one''\<rparr>)
   \<and> \<not> isl (post_all_but_two ''/api/feedback'' \<lparr>sub_id = 3, payload = ''three''\<rparr>)
   \<and> map sub_id (pending (on_sync ''feedback-submission'' post_all_but_two stocked_state))
       = [1, 2, 3]
   \<and> trace (on_sync ''feedback-submission'' post_all_but_two stocked_state) = []"
  by (simp add: on_sync_def syncFeedbackSubmissions_nothing stocked_state_def
      post_all_but_two_def)

subsection \<open>What is stored\<close>

text \<open>
  C10: whatever the worker writes into a partition is an ok response. Each of
  \<open>safeCacheAdd\<close>, the install handler, \<open>cacheFirst\<close>, \<open>networkFirst\<close>,
  \<open>staleWhileRevalidate\<close> and \<open>handleFetch\<close> extends the trace by events whose cache writes
  all carry an ok response; when every stored response of the state is ok before the install
  handler, \<open>handleFetch\<close> or \<open>staleWhileRevalidate\<close>, it is so afterwards. A response of the
  network that is not ok is returned by \<open>networkFirst\<close>, and by \<open>cacheFirst\<close> on a miss, and
  the partitions are then those of the state with the partition opened: nothing is stored;
  \<open>staleWhileRevalidate\<close> and \<open>safeCacheAdd\<close> store nothing either.
\<close>

theorem only_ok_responses_are_stored:
  "writes_ok s (snd (safeCacheAdd net n u s))
   \<and> writes_ok s (snd (install_with assets net s))
   \<and> writes_ok s (snd (cacheFirst net req n s))
   \<and> writes_ok s (snd (networkFirst net req n s))
   \<and> writes_ok s (snd (staleWhileRevalidate net req n s))
   \<and> writes_ok s (snd (handleFetch net req s))
   \<and> (all_cached_ok s \<longrightarrow>
         all_cached_ok (snd (install_with assets net s))
         \<and> all_cached_ok (snd (handleFetch net req s))
         \<and> all_cached_ok (snd (staleWhileRevalidate net req n s)))
   \<and> (\<forall>r. net (url req) = Inr r \<and> \<not> ok r \<longrightarrow>
         fst (networkFirst net req n s) = Resolved r
         \<and> caches (snd (networkFirst net req n s)) = caches (caches_open n s)
         \<and> caches (snd (staleWhileRevalidate net req n s)) = caches (caches_open n s)
         \<and> (cache_match n (url req) s = None \<longrightarrow>
               fst (cacheFirst net req n s) = Resolved r
               \<and> caches (snd (cacheFirst net req n s)) = caches (caches_open n s)))
   \<and> (\<forall>r. net u = Inr r \<and> \<not> ok r \<longrightarrow>
         caches (snd (safeCacheAdd net n u s)) = caches s)"
proof -
  have inv: "all_cached_ok (snd (install_with assets net s))
         \<and> all_cached_ok (snd (handleFetch net req s))
         \<and> all_cached_ok (snd (staleWhileRevalidate net req n s))"
    if "all_cached_ok s"
    using that
    by (simp add: all_cached_ok_install_with all_cached_ok_handleFetch
        all_cached_ok_staleWhileRevalidate)
  have bad: "fst (networkFirst net req n s) = Resolved r
         \<and> caches (snd (networkFirst net req n s)) = caches (caches_open n s)
         \<and> caches (snd (staleWhileRevalidate net req n s)) = caches (caches_open n s)
         \<and> (cache_match n (url req) s = None \<longrightarrow>
               fst (cacheFirst net req n s) = Resolved r
               \<and> caches (snd (cacheFirst net req n s)) = caches (caches_open n s))"
    if "net (url req) = Inr r" and "\<not> ok r" for r
    using that
    by (simp add: networkFirst_not_ok [of net req r] cacheFirst_not_ok [of net req r]
        staleWhileRevalidate_not_ok [of net req r])
  have pre: "caches (snd (safeCacheAdd net n u s)) = caches s"
    if "net u = Inr r" and "\<not> ok r" for r
    using that by (simp add: safeCacheAdd_not_ok [of net u r])
  show ?thesis
    using writes_ok_safeCacheAdd [of s net n u] writes_ok_install_with [of s assets net]
      writes_ok_cacheFirst [of s net req n] writes_ok_networkFirst [of s net req n]
      writes_ok_staleWhileRevalidate [of s net req n] writes_ok_handleFetch [of s net req]
      inv bad pre
    by blast
qed


theorem only_ok_responses_are_stored_witness:
  "all_cached_ok stocked_state
   \<and> all_cached_ok (snd (handleFetch net_up (get_request ''/lessons/7'' ''navigate'') stocked_state))
   \<and> \<not> ok not_found
   \<and> fst (networkFirst (\<lambda>u. Inr not_found) (get_request ''/lessons/7'' ''navigate'')
        DYNAMIC_CACHE empty_state) = Resolved not_found
   \<and> caches (snd (networkFirst (\<lambda>u. Inr not_found) (get_request ''/lessons/7'' ''navigate'')
        DYNAMIC_CACHE empty_state)) = [(DYNAMIC_CACHE, [])]
   \<and> cache_match STATIC_CACHE ''/lessons/7'' empty_state = None
   \<and> fst (cacheFirst (\<lambda>u. Inr not_found) (get_request ''/lessons/7'' ''navigate'')
        STATIC_CACHE empty_state) = Resolved not_found
   \<and> caches (snd (safeCacheAdd (\<lambda>u. Inr not_found) STATIC_CACHE ''/lessons/7'' empty_state)) = []"
proof -
  let ?req = "get_request ''/lessons/7'' ''navigate''"
  let ?net = "\<lambda>u::string. (Inr not_found :: error + response)"
  have good: "all_cached_ok stocked_state"
    by (simp add: all_cached_ok_def stocked_state_def)
  have bad: "\<not> ok not_found"
    by (simp add: ok_def not_found_def)
  have ans: "?net (url ?req) = Inr not_found" "?net ''/lessons/7'' = Inr not_found"
    by simp_all
  have miss: "cache_match STATIC_CACHE (url ?req) empty_state = None"
    by (simp add: cache_match_def)
  have 1: "all_cached_ok (snd (handleFetch net_up ?req stocked_state))"
    using only_ok_responses_are_stored [where s = stocked_state and net = net_up and req = ?req]
      good by blast
  note dyn = only_ok_responses_are_stored
    [where s = empty_state and net = ?net and req = ?req and n = DYNAMIC_CACHE]
  note sta = only_ok_responses_are_stored
    [where s = empty_state and net = ?net and req = ?req and n = STATIC_CACHE
       and u = "''/lessons/7''"]
  have 2: "fst (networkFirst ?net ?req DYNAMIC_CACHE empty_state) = Resolved not_found"
    using dyn ans(1) bad by blast
  have "caches (snd (networkFirst ?net ?req DYNAMIC_CACHE empty_state))
          = caches (caches_open DYNAMIC_CACHE empty_state)"
    using dyn ans(1) bad by blast
  then have 3: "caches (snd (networkFirst ?net ?req DYNAMIC_CACHE empty_state))
          = [(DYNAMIC_CACHE, [])]"
    by (simp add: caches_open_def)
  have 4: "fst (cacheFirst ?net ?req STATIC_CACHE empty_state) = Resolved not_found"
    using sta ans(1) bad miss by blast
  have "caches (snd (safeCacheAdd ?net STATIC_CACHE ''/lessons/7'' empty_state))
          = caches empty_state"
    using sta ans(2) bad by blast
  then have 5: "caches (snd (safeCacheAdd ?net STATIC_CACHE ''/lessons/7'' empty_state)) = []"
    by simp
  show ?thesis
    using good bad miss 1 2 3 4 5 by simp
qed

subsection \<open>Preloading\<close>

text \<open>
  C7: preloading the manifest \<open>/a.css\<close>, \<open>/b.css\<close> when the fetch of the first succeeds
  and the fetch of the second fails completes, stores the first and not the second, and
  reports 2 successful of 2; the install handler of the worker, with the fetch of
  \<open>/manifest.json\<close> failing and every other asset served, reports 10 successful of 10 while
  \<open>/manifest.json\<close> is not in the static partition.
\<close>

theorem install_counts_every_asset:
  "fst (install_with [''/a.css'', ''/b.css''] net_a_only empty_state) = (2, 2)
   \<and> cache_match STATIC_CACHE ''/a.css''
        (snd (install_with [''/a.css'', ''/b.css''] net_a_only empty_state))
       = Some (page ''/a.css'')
   \<and> cache_match STATIC_CACHE ''/b.css''
        (snd (install_with [''/a.css'', ''/b.css''] net_a_only empty_state)) = None
   \<and> fst (install net_without_manifest empty_state) = (10, 10)
   \<and> cache_match STATIC_CACHE ''/manifest.json'' (snd (install net_without_manifest empty_state))
       = None"
proof -
  have 1: "fst (install_with [''/a.css'', ''/b.css''] net_a_only empty_state) = (2, 2)"
    by (simp add: install_with_reports_length)
  have 2: "cache_match STATIC_CACHE ''/a.css''
        (snd (install_with [''/a.css'', ''/b.css''] net_a_only empty_state))
       = Some (page ''/a.css'')"
    by (simp add: install_with_def safeCacheAdd_def safeCacheAdd_try_def fetch_def
        net_a_only_def caches_open_def cache_put_url_def store_entry_def cache_match_def
        STATIC_CACHE_def DYNAMIC_CACHE_def)
  have absent: "cache_match STATIC_CACHE k empty_state = None" for k
    by (simp add: cache_match_def)
  have "net_a_only ''/b.css'' = Inl NetworkError"
    by (simp add: net_a_only_def)
  then have 3: "cache_match STATIC_CACHE ''/b.css''
        (snd (install_with [''/a.css'', ''/b.css''] net_a_only empty_state)) = None"
    using install_with_unreachable [of net_a_only "''/b.css''" NetworkError STATIC_CACHE
        "[''/a.css'', ''/b.css'']" empty_state] absent
    by simp
  have 4: "fst (install net_without_manifest empty_state) = (10, 10)"
    by (simp add: install_def install_with_reports_length STATIC_ASSETS_def)
  have "net_without_manifest ''/manifest.json'' = Inl NetworkError"
    by (simp add: net_without_manifest_def)
  then have 5: "cache_match STATIC_CACHE ''/manifest.json''
        (snd (install net_without_manifest empty_state)) = None"
    using install_with_unreachable [of net_without_manifest "''/manifest.json''" NetworkError
        STATIC_CACHE STATIC_ASSETS empty_state] absent
    by (simp add: install_def)
  show ?thesis using 1 2 3 4 5 by simp
qed

end
